theory Spec2Isabelle
  imports Main
begin

section \<open>Python values and strings\<close>

text \<open>
  A character is a Unicode code point below 256, so a string is a Python \<open>str\<close> of
  Latin-1 characters. The values a spreadsheet cell can hold and a column parser can
  return are Python's \<open>None\<close>, \<open>str\<close>, \<open>int\<close>, \<open>bool\<close>, \<open>datetime.date\<close> and (naive)
  \<open>datetime.datetime\<close>; floating point values are outside the model.
\<close>

datatype pydate = Date (year: nat) (month: nat) (day: nat)

datatype pytime = Time (hour: nat) (minute: nat) (second: nat) (microsecond: nat)

datatype pyval =
    PNone
  | PStr string
  | PInt int
  | PBool bool
  | PDate pydate
  | PDateTime pydate pytime

text \<open>
  Exceptions: \<open>ValueError\<close> and \<open>TypeError\<close> with their message, the \<open>KeyError\<close> of a
  dictionary keyed by classes with the identity of the missing class, and any other
  exception with its class name and message.
\<close>

datatype error = ValueError string | TypeError string | KeyError nat | OtherError string string

text \<open>
  A call that mutates state in place either completes or raises; in both cases the state
  it leaves behind is part of the result.
\<close>

datatype 's outcome = Completed 's | Raised error 's

definition upper_chars :: string where
  "upper_chars = ''ABCDEFGHIJKLMNOPQRSTUVWXYZ''"

definition lower_chars :: string where
  "lower_chars = ''abcdefghijklmnopqrstuvwxyz''"

definition digit_chars :: string where
  "digit_chars = ''0123456789''"

text \<open>The classes \<open>[A-Z]\<close>, \<open>[a-z]\<close> and \<open>[0-9]\<close> of a regular expression.\<close>

definition is_upper :: "char \<Rightarrow> bool" where
  "is_upper c = (c \<in> set upper_chars)"

definition is_lower :: "char \<Rightarrow> bool" where
  "is_lower c = (c \<in> set lower_chars)"

definition is_digit :: "char \<Rightarrow> bool" where
  "is_digit c = (c \<in> set digit_chars)"

text \<open>
  The upper-case letters U+00C0 .. U+00DE (without the multiplication sign U+00D7) and
  their lower-case forms U+00E0 .. U+00FE (without the division sign U+00F7).
\<close>

definition latin_upper_chars :: string where
  "latin_upper_chars = [CHR 0xC0, CHR 0xC1, CHR 0xC2, CHR 0xC3, CHR 0xC4, CHR 0xC5, CHR 0xC6, CHR 0xC7, CHR 0xC8, CHR 0xC9, CHR 0xCA, CHR 0xCB, CHR 0xCC, CHR 0xCD, CHR 0xCE, CHR 0xCF,
                          CHR 0xD0, CHR 0xD1, CHR 0xD2, CHR 0xD3, CHR 0xD4, CHR 0xD5, CHR 0xD6, CHR 0xD8, CHR 0xD9, CHR 0xDA, CHR 0xDB, CHR 0xDC, CHR 0xDD, CHR 0xDE]"

definition latin_lower_chars :: string where
  "latin_lower_chars = [CHR 0xE0, CHR 0xE1, CHR 0xE2, CHR 0xE3, CHR 0xE4, CHR 0xE5, CHR 0xE6, CHR 0xE7, CHR 0xE8, CHR 0xE9, CHR 0xEA, CHR 0xEB, CHR 0xEC, CHR 0xED, CHR 0xEE, CHR 0xEF,
                          CHR 0xF0, CHR 0xF1, CHR 0xF2, CHR 0xF3, CHR 0xF4, CHR 0xF5, CHR 0xF6, CHR 0xF8, CHR 0xF9, CHR 0xFA, CHR 0xFB, CHR 0xFC, CHR 0xFD, CHR 0xFE]"

text \<open>\<open>str.lower()\<close>: every upper-case letter below U+0100 has its lower-case form there.\<close>

definition to_lower :: "char \<Rightarrow> char" where
  "to_lower c =
     (case map_of (zip (upper_chars @ latin_upper_chars) (lower_chars @ latin_lower_chars)) c of
        Some l \<Rightarrow> l
      | None \<Rightarrow> c)"

definition py_lower :: "string \<Rightarrow> string" where
  "py_lower s = map to_lower s"

text \<open>
  \<open>str.upper()\<close> leaves the Latin-1 range for three characters: the micro sign becomes
  U+039C, the sharp s becomes \<open>SS\<close> and y with diaeresis becomes U+0178. An upper-cased
  string is therefore a list of Latin-1 characters and these two capitals.
\<close>

datatype uchar = Latin char | Capital_Mu | Capital_Y_Diaeresis

definition to_upper :: "char \<Rightarrow> uchar list" where
  "to_upper c =
     (if c = CHR 0xB5 then [Capital_Mu]
      else if c = CHR 0xDF then [Latin CHR ''S'', Latin CHR ''S'']
      else if c = CHR 0xFF then [Capital_Y_Diaeresis]
      else (case map_of (zip (lower_chars @ latin_lower_chars) (upper_chars @ latin_upper_chars)) c of
              Some u \<Rightarrow> [Latin u]
            | None \<Rightarrow> [Latin c]))"

definition py_upper :: "string \<Rightarrow> uchar list" where
  "py_upper s = concat (map to_upper s)"

text \<open>
  \<open>str.isspace\<close> below U+0100: tab, line feed, vertical tab, form feed, carriage return,
  the four separators U+001C .. U+001F, the space, the next-line control U+0085 and the
  no-break space U+00A0.
\<close>

definition py_isspace :: "char \<Rightarrow> bool" where
  "py_isspace c = (c \<in> set [CHR 0x09, CHR 0x0A, CHR 0x0B, CHR 0x0C, CHR 0x0D,
                              CHR 0x1C, CHR 0x1D, CHR 0x1E, CHR 0x1F, CHR 0x20,
                              CHR 0x85, CHR 0xA0])"

definition py_strip :: "string \<Rightarrow> string" where
  "py_strip s = rev (dropWhile py_isspace (rev (dropWhile py_isspace s)))"

definition digit_char :: "nat \<Rightarrow> char" where
  "digit_char d = digit_chars ! d"

fun nat_digits :: "nat \<Rightarrow> string" where
  "nat_digits n = (if n < 10 then [digit_char n] else nat_digits (n div 10) @ [digit_char (n mod 10)])"

declare nat_digits.simps [simp del]

definition int_str :: "int \<Rightarrow> string" where
  "int_str i = (if i < 0 then CHR ''-'' # nat_digits (nat (- i)) else nat_digits (nat i))"

definition zero_pad :: "nat \<Rightarrow> string \<Rightarrow> string" where
  "zero_pad w s = replicate (w - length s) CHR ''0'' @ s"

definition date_str :: "pydate \<Rightarrow> string" where
  "date_str d = zero_pad 4 (nat_digits (year d)) @ ''-'' @ zero_pad 2 (nat_digits (month d))
                @ ''-'' @ zero_pad 2 (nat_digits (day d))"

definition time_str :: "pytime \<Rightarrow> string" where
  "time_str t = zero_pad 2 (nat_digits (hour t)) @ '':'' @ zero_pad 2 (nat_digits (minute t))
                @ '':'' @ zero_pad 2 (nat_digits (second t))
                @ (if microsecond t = 0 then [] else ''.'' @ zero_pad 6 (nat_digits (microsecond t)))"

text \<open>Python's \<open>str(v)\<close>.\<close>

fun py_str :: "pyval \<Rightarrow> string" where
  "py_str PNone = ''None''"
| "py_str (PStr s) = s"
| "py_str (PInt i) = int_str i"
| "py_str (PBool b) = (if b then ''True'' else ''False'')"
| "py_str (PDate d) = date_str d"
| "py_str (PDateTime d t) = date_str d @ '' '' @ time_str t"

text \<open>
  Python's \<open>==\<close> on these values, which is also what membership in a set uses:
  a \<open>bool\<close> is the integer 0 or 1, and values of different kinds are unequal.
\<close>

fun py_eq :: "pyval \<Rightarrow> pyval \<Rightarrow> bool" where
  "py_eq PNone PNone = True"
| "py_eq (PStr a) (PStr b) = (a = b)"
| "py_eq (PInt a) (PInt b) = (a = b)"
| "py_eq (PInt a) (PBool b) = (a = (if b then 1 else 0))"
| "py_eq (PBool a) (PInt b) = ((if a then 1 else 0) = b)"
| "py_eq (PBool a) (PBool b) = (a = b)"
| "py_eq (PDate a) (PDate b) = (a = b)"
| "py_eq (PDateTime a s) (PDateTime b t) = (a = b \<and> s = t)"
| "py_eq _ _ = False"

section \<open>Columns, record types and sheet specifications\<close>

text \<open>
  \<open>ColumnSpec\<close> of column.py. The renderer is not used by the orchestrator and is left
  out. A parser or validator that raises returns the error.
\<close>

record column_spec =
  header :: "string option"
  index :: "int option"
  default :: pyval
  required :: bool
  not_null :: bool
  excludes :: "pyval list option"
  parser :: "pyval \<Rightarrow> error + pyval"
  validator :: "pyval \<Rightarrow> error option"

text \<open>\<open>Column\<close>: a spec and the field name given by \<open>__set_name__\<close>.\<close>

record column =
  spec :: column_spec
  name :: string

text \<open>A record: the \<open>_values\<close> dictionary of the object, in insertion order.\<close>

type_synonym obj = "(string \<times> pyval) list"

datatype class_attr = AColumn column_spec | AOther

text \<open>
  A record type (a Python class): its identity, its \<open>__name__\<close>, its annotated field names
  in declaration order with the class attribute found under each, and the callable that
  \<open>getattr(obj, "validate", None)\<close> finds on its instances, if it finds one; called, it
  raises or leaves the record as returned.
\<close>

record model =
  class_id :: nat
  class_name :: string
  annotations :: "(string \<times> class_attr) list"
  validate :: "(obj \<Rightarrow> error + obj) option"

definition get_model_columns :: "model \<Rightarrow> column list" where
  "get_model_columns m =
     List.map_filter
       (\<lambda>(field_name, v). case v of AColumn s \<Rightarrow> Some \<lparr>spec = s, name = field_name\<rparr> | AOther \<Rightarrow> None)
       (annotations m)"

record sheet_spec =
  sheet_name :: string
  models :: "model list"
  title_row :: int
  header_row :: int
  data_start_row :: int
  template_table_gap :: int

text \<open>
  The worksheet collaborator, as far as the orchestrator reads it: the raw value of the
  cell at a row and column, and the sheet's maximum used row and column. Rows and columns
  are numbered from 1; asking for a cell at a row or column below 1 raises.
\<close>

record worksheet =
  cell_value :: "int \<Rightarrow> int \<Rightarrow> pyval"
  max_row :: int
  max_column :: int

definition cell_read :: "worksheet \<Rightarrow> int \<Rightarrow> int \<Rightarrow> error + pyval" where
  "cell_read ws r c =
     (if r < 1 \<or> c < 1 then Inl (ValueError ''Row or column values must be at least 1'')
      else Inr (cell_value ws r c))"

text \<open>Reading the cells of a row at the given columns, left to right.\<close>

fun read_cells :: "worksheet \<Rightarrow> int \<Rightarrow> int list \<Rightarrow> error + pyval list" where
  "read_cells ws r [] = Inr []"
| "read_cells ws r (c # cs) =
     (case cell_read ws r c of
        Inl e \<Rightarrow> Inl e
      | Inr v \<Rightarrow> (case read_cells ws r cs of Inl e \<Rightarrow> Inl e | Inr vs \<Rightarrow> Inr (v # vs)))"

text \<open>\<open>[ws.cell(row=r, column=start_col + j).value for j in range(width)]\<close>.\<close>

definition read_row :: "worksheet \<Rightarrow> int \<Rightarrow> int \<Rightarrow> nat \<Rightarrow> error + pyval list" where
  "read_row ws r start_col width = read_cells ws r (map (\<lambda>j. start_col + int j) [0..<width])"

section \<open>Header normalisation and the header locator\<close>

fun normalize_header :: "pyval \<Rightarrow> string" where
  "normalize_header PNone = ''''"
| "normalize_header v = py_strip (py_str v)"

definition row_is_blank :: "pyval list \<Rightarrow> bool" where
  "row_is_blank vals = list_all (\<lambda>v. normalize_header v = '''') vals"

definition opt_str :: "string option \<Rightarrow> pyval" where
  "opt_str h = (case h of None \<Rightarrow> PNone | Some s \<Rightarrow> PStr s)"

definition expected_headers :: "model \<Rightarrow> string list" where
  "expected_headers m = map (\<lambda>c. normalize_header (opt_str (header (spec c)))) (get_model_columns m)"

text \<open>The \<open>for start_col in range(...)\<close> loop of \<open>_find_header\<close>.\<close>

fun find_header_loop :: "worksheet \<Rightarrow> int \<Rightarrow> string list \<Rightarrow> int list \<Rightarrow> error + (int \<times> int) option" where
  "find_header_loop ws r expected [] = Inr None"
| "find_header_loop ws r expected (start_col # rest) =
     (case read_row ws r start_col (length expected) of
        Inl e \<Rightarrow> Inl e
      | Inr vals \<Rightarrow>
          if map normalize_header vals = expected then Inr (Some (r, start_col))
          else find_header_loop ws r expected rest)"

text \<open>\<open>range(1, max_c - width + 2)\<close> is the list of the integers from 1 to \<open>max_c - width + 1\<close>.\<close>

definition find_header :: "worksheet \<Rightarrow> sheet_spec \<Rightarrow> model \<Rightarrow> error + (int \<times> int) option" where
  "find_header ws sp m =
     (let expected = expected_headers m in
      if expected = [] then Inr None
      else let r = header_row sp;
               width = length expected;
               max_c = max_column ws
           in find_header_loop ws r expected [1..max_c - int width + 1])"

section \<open>The row loader\<close>

fun dict_set :: "'k \<Rightarrow> 'v \<Rightarrow> ('k \<times> 'v) list \<Rightarrow> ('k \<times> 'v) list" where
  "dict_set k v [] = [(k, v)]"
| "dict_set k v ((k', v') # d) = (if k' = k then (k, v) # d else (k', v') # dict_set k v d)"

text \<open>
  \<open>any(col.spec.excludes and row_vals[i] in col.spec.excludes for i, col in enumerate(cols))\<close>:
  an absent or empty exclusion set excludes nothing.
\<close>

definition col_excludes :: "column \<Rightarrow> pyval \<Rightarrow> bool" where
  "col_excludes col raw =
     (case excludes (spec col) of
        None \<Rightarrow> False
      | Some ex \<Rightarrow> ex \<noteq> [] \<and> list_ex (py_eq raw) ex)"

definition row_excluded :: "column list \<Rightarrow> pyval list \<Rightarrow> bool" where
  "row_excluded cols row_vals =
     list_ex (\<lambda>(i, col). col_excludes col (row_vals ! i)) (enumerate 0 cols)"

text \<open>\<open>_instantiate_model\<close>: every column's default under its field name.\<close>

definition instantiate_model :: "model \<Rightarrow> obj" where
  "instantiate_model m =
     fold (\<lambda>col vals. dict_set (name col) (default (spec col)) vals) (get_model_columns m) []"

text \<open>\<open>Column.validate\<close> and \<open>Column.__set__\<close>.\<close>

definition column_validate :: "column \<Rightarrow> pyval \<Rightarrow> error option" where
  "column_validate col v =
     (if not_null (spec col) \<and> (v = PNone \<or> py_eq v (PStr ''''))
      then Some (ValueError (name col @ '' cannot be null/empty''))
      else validator (spec col) v)"

definition column_set :: "column \<Rightarrow> obj \<Rightarrow> pyval \<Rightarrow> error + obj" where
  "column_set col ob v =
     (case column_validate col v of
        Some e \<Rightarrow> Inl e
      | None \<Rightarrow> Inr (dict_set (name col) v ob))"

text \<open>The \<open>for i, col in enumerate(cols)\<close> loop that parses and sets each field.\<close>

fun set_fields :: "(column \<times> pyval) list \<Rightarrow> obj \<Rightarrow> error + obj" where
  "set_fields [] ob = Inr ob"
| "set_fields ((col, raw) # rest) ob =
     (case parser (spec col) raw of
        Inl e \<Rightarrow> Inl e
      | Inr parsed \<Rightarrow>
          (case column_set col ob parsed of
             Inl e \<Rightarrow> Inl e
           | Inr ob' \<Rightarrow> set_fields rest ob'))"

definition make_record :: "model \<Rightarrow> column list \<Rightarrow> pyval list \<Rightarrow> error + obj" where
  "make_record m cols row_vals =
     (case set_fields (zip cols row_vals) (instantiate_model m) of
        Inl e \<Rightarrow> Inl e
      | Inr ob \<Rightarrow>
          (case validate m of
             None \<Rightarrow> Inr ob
           | Some hook \<Rightarrow> hook ob))"

text \<open>
  The \<open>while r <= ws.max_row\<close> loop of \<open>_parse_sheet\<close>, on the contents of the
  repository it appends to.
\<close>

function parse_rows ::
  "worksheet \<Rightarrow> model \<Rightarrow> column list \<Rightarrow> int \<Rightarrow> int \<Rightarrow> obj list \<Rightarrow> (obj list) outcome" where
  "parse_rows ws m cols start_col r repo =
     (if r \<le> max_row ws then
        (case read_row ws r start_col (length cols) of
           Inl e \<Rightarrow> Raised e repo
         | Inr row_vals \<Rightarrow>
             if row_is_blank row_vals then Completed repo
             else if row_excluded cols row_vals then parse_rows ws m cols start_col (r + 1) repo
             else (case make_record m cols row_vals of
                     Inl e \<Rightarrow> Raised e repo
                   | Inr ob \<Rightarrow> parse_rows ws m cols start_col (r + 1) (repo @ [ob])))
      else Completed repo)"
  by pat_completeness auto
termination
  by (relation "measure (\<lambda>(ws, m, cols, start_col, r, repo). nat (max_row ws + 1 - r))") auto

declare parse_rows.simps [simp del]

section \<open>Repository names\<close>

text \<open>
  \<open>re.sub("(.)([A-Z][a-z]+)", r"\1_\2", name)\<close>: scanning from the left, any character
  but a line feed, followed by an upper-case letter and a longest run of at least one
  lower-case letter, gets an underscore after that first character; scanning resumes
  after the run.
\<close>

fun sub_word :: "string \<Rightarrow> string" and sub_word_run :: "string \<Rightarrow> string" where
  "sub_word [] = []"
| "sub_word [c] = [c]"
| "sub_word [c, u] = [c, u]"
| "sub_word (c # u # l # rest) =
     (if c \<noteq> CHR 0x0A \<and> is_upper u \<and> is_lower l
      then c # CHR ''_'' # u # l # sub_word_run rest
      else c # sub_word (u # l # rest))"
| "sub_word_run [] = []"
| "sub_word_run (x # rest) = (if is_lower x then x # sub_word_run rest else sub_word (x # rest))"

text \<open>
  \<open>re.sub("([a-z0-9])([A-Z])", r"\1_\2", s1)\<close>: a lower-case letter or digit followed by
  an upper-case letter gets an underscore between them; scanning resumes after the pair.
\<close>

fun sub_boundary :: "string \<Rightarrow> string" where
  "sub_boundary [] = []"
| "sub_boundary [c] = [c]"
| "sub_boundary (c # u # rest) =
     (if (is_lower c \<or> is_digit c) \<and> is_upper u
      then c # CHR ''_'' # u # sub_boundary rest
      else c # sub_boundary (u # rest))"

definition camel_to_snake :: "string \<Rightarrow> string" where
  "camel_to_snake nm = (let s1 = sub_word nm; s2 = sub_boundary s1 in py_lower s2)"

definition endswith_s :: "string \<Rightarrow> bool" where
  "endswith_s s = (s \<noteq> [] \<and> last s = CHR ''s'')"

definition pluralize :: "string \<Rightarrow> string" where
  "pluralize s = (if endswith_s s then s else s @ ''s'')"

definition repo_name_for_model :: "model \<Rightarrow> string" where
  "repo_name_for_model m = pluralize (camel_to_snake (class_name m))"

section \<open>The orchestrator\<close>

text \<open>
  An \<open>ExcelFile\<close> together with the list objects it refers to. A \<open>Repository\<close> is a list
  object on the heap; \<open>_repos\<close> maps a record type (by identity) to its repository, and
  \<open>setattr\<close> stores the same object under the derived name.
\<close>

type_synonym addr = nat

record excel_file =
  sheets :: "sheet_spec list"
  repos :: "(nat \<times> addr) list"
  attrs :: "(string \<times> addr) list"
  heap :: "addr \<Rightarrow> obj list"
  next_addr :: addr

text \<open>
  The names \<open>hasattr\<close> finds on an \<open>ExcelFile\<close> before any repository is set: the two
  instance attributes assigned first in \<open>__init__\<close>, the methods of the class, and the
  attributes every Python object has.
\<close>

definition instance_attrs :: "string list" where
  "instance_attrs = [''sheets'', ''_repos'']"

definition class_attrs :: "string list" where
  "class_attrs = [''__init__'', ''generate_template'', ''_write_sheet_template'', ''load_data'',
                  ''_parse_sheet'', ''_find_header'']"

definition object_attrs :: "string list" where
  "object_attrs = [''__class__'', ''__delattr__'', ''__dict__'', ''__dir__'', ''__doc__'', ''__eq__'',
     ''__format__'', ''__ge__'', ''__getattribute__'', ''__getstate__'', ''__gt__'', ''__hash__'',
     ''__init_subclass__'', ''__le__'', ''__lt__'', ''__module__'', ''__ne__'', ''__new__'',
     ''__reduce__'', ''__reduce_ex__'', ''__repr__'', ''__setattr__'', ''__sizeof__'', ''__str__'',
     ''__subclasshook__'', ''__weakref__'']"

definition hasattr :: "excel_file \<Rightarrow> string \<Rightarrow> bool" where
  "hasattr xf nm = (nm \<in> set (map fst (attrs xf) @ instance_attrs @ class_attrs @ object_attrs))"

definition quote :: "string \<Rightarrow> string" where
  "quote s = [CHR 0x27] @ s @ [CHR 0x27]"

text \<open>The body of the inner loop of \<open>__init__\<close>, and the two loops.\<close>

definition register_model :: "model \<Rightarrow> excel_file \<Rightarrow> error + excel_file" where
  "register_model m xf =
     (let repo_name = repo_name_for_model m in
      if hasattr xf repo_name
      then Inl (ValueError (''Duplicate repo name '' @ quote repo_name @ '' for model '' @ class_name m))
      else let repo = next_addr xf in
           Inr (xf\<lparr>repos := dict_set (class_id m) repo (repos xf),
                   attrs := dict_set repo_name repo (attrs xf),
                   heap := (heap xf)(repo := []),
                   next_addr := repo + 1\<rparr>))"

fun register_models :: "model list \<Rightarrow> excel_file \<Rightarrow> error + excel_file" where
  "register_models [] xf = Inr xf"
| "register_models (m # ms) xf =
     (case register_model m xf of Inl e \<Rightarrow> Inl e | Inr xf' \<Rightarrow> register_models ms xf')"

fun register_sheets :: "sheet_spec list \<Rightarrow> excel_file \<Rightarrow> error + excel_file" where
  "register_sheets [] xf = Inr xf"
| "register_sheets (sp # sps) xf =
     (case register_models (models sp) xf of Inl e \<Rightarrow> Inl e | Inr xf' \<Rightarrow> register_sheets sps xf')"

definition excel_file_init :: "sheet_spec list \<Rightarrow> error + excel_file" where
  "excel_file_init shs =
     register_sheets shs \<lparr>sheets = shs, repos = [], attrs = [], heap = (\<lambda>_. []), next_addr = 0\<rparr>"

subsection \<open>Loading\<close>

text \<open>A loaded document: its sheets by name, in order.\<close>

type_synonym workbook = "(string \<times> worksheet) list"

definition clear_repos :: "excel_file \<Rightarrow> excel_file" where
  "clear_repos xf = xf\<lparr>heap := fold (\<lambda>(_, repo) h. h(repo := [])) (repos xf) (heap xf)\<rparr>"

text \<open>The body of the loop of \<open>_parse_sheet\<close> for one record type.\<close>

definition parse_model :: "worksheet \<Rightarrow> sheet_spec \<Rightarrow> model \<Rightarrow> excel_file \<Rightarrow> excel_file outcome" where
  "parse_model ws sp m xf =
     (case find_header ws sp m of
        Inl e \<Rightarrow> Raised e xf
      | Inr None \<Rightarrow> Completed xf
      | Inr (Some (_, start_col)) \<Rightarrow>
          (let cols = get_model_columns m in
           case map_of (repos xf) (class_id m) of
             None \<Rightarrow> Raised (KeyError (class_id m)) xf
           | Some repo \<Rightarrow>
               (case parse_rows ws m cols start_col (data_start_row sp) (heap xf repo) of
                  Completed rs \<Rightarrow> Completed (xf\<lparr>heap := (heap xf)(repo := rs)\<rparr>)
                | Raised e rs \<Rightarrow> Raised e (xf\<lparr>heap := (heap xf)(repo := rs)\<rparr>))))"

fun parse_models :: "worksheet \<Rightarrow> sheet_spec \<Rightarrow> model list \<Rightarrow> excel_file \<Rightarrow> excel_file outcome" where
  "parse_models ws sp [] xf = Completed xf"
| "parse_models ws sp (m # ms) xf =
     (case parse_model ws sp m xf of
        Completed xf' \<Rightarrow> parse_models ws sp ms xf'
      | Raised e xf' \<Rightarrow> Raised e xf')"

definition parse_sheet :: "worksheet \<Rightarrow> sheet_spec \<Rightarrow> excel_file \<Rightarrow> excel_file outcome" where
  "parse_sheet ws sp xf = parse_models ws sp (models sp) xf"

fun load_sheets :: "workbook \<Rightarrow> sheet_spec list \<Rightarrow> excel_file \<Rightarrow> excel_file outcome" where
  "load_sheets wb [] xf = Completed xf"
| "load_sheets wb (sp # sps) xf =
     (case map_of wb (sheet_name sp) of
        None \<Rightarrow> Raised (ValueError (''Workbook missing sheet '' @ quote (sheet_name sp))) xf
      | Some ws \<Rightarrow>
          (case parse_sheet ws sp xf of
             Completed xf' \<Rightarrow> load_sheets wb sps xf'
           | Raised e xf' \<Rightarrow> Raised e xf'))"

definition load_data :: "workbook \<Rightarrow> excel_file \<Rightarrow> excel_file outcome" where
  "load_data wb xf = load_sheets wb (sheets xf) (clear_repos xf)"

subsection \<open>Repository\<close>

text \<open>
  \<open>Repository.all\<close> is \<open>list(self)\<close>: a new list object with the same elements. Any later
  mutation of a list object replaces the contents stored at its address.
\<close>

definition repository_all :: "addr \<Rightarrow> excel_file \<Rightarrow> addr \<times> excel_file" where
  "repository_all repo xf =
     (let result = next_addr xf in
      (result, xf\<lparr>heap := (heap xf)(result := heap xf repo), next_addr := result + 1\<rparr>))"

definition list_mutate :: "addr \<Rightarrow> (obj list \<Rightarrow> obj list) \<Rightarrow> excel_file \<Rightarrow> excel_file" where
  "list_mutate a f xf = xf\<lparr>heap := (heap xf)(a := f (heap xf a))\<rparr>"

section \<open>Built-in column types\<close>

text \<open>
  Python's \<open>repr\<close> of a string: single quotes unless the string has a single and no
  double quote; the backslash, the chosen quote and every character that is not printable
  (the controls U+0000 .. U+001F and U+007F .. U+00A0, and the soft hyphen U+00AD) escaped.
\<close>

definition backslash :: char where
  "backslash = CHR 0x5C"

definition hex_chars :: string where
  "hex_chars = ''0123456789abcdef''"

definition is_printable :: "char \<Rightarrow> bool" where
  "is_printable c =
     (let n = (of_char c :: nat) in \<not> (n < 0x20 \<or> (0x7F \<le> n \<and> n \<le> 0xA0) \<or> n = 0xAD))"

definition escape_char :: "char \<Rightarrow> char \<Rightarrow> string" where
  "escape_char q c =
     (if c = backslash then [backslash, backslash]
      else if c = q then [backslash, q]
      else if c = CHR 0x09 then [backslash, CHR ''t'']
      else if c = CHR 0x0A then [backslash, CHR ''n'']
      else if c = CHR 0x0D then [backslash, CHR ''r'']
      else if \<not> is_printable c
      then [backslash, CHR ''x'', hex_chars ! ((of_char c :: nat) div 16), hex_chars ! ((of_char c :: nat) mod 16)]
      else [c])"

definition repr_str :: "string \<Rightarrow> string" where
  "repr_str s =
     (let q = (if CHR 0x27 \<in> set s \<and> CHR 0x22 \<notin> set s then CHR 0x22 else CHR 0x27)
      in [q] @ concat (map (escape_char q) s) @ [q])"

definition date_args :: "pydate \<Rightarrow> string" where
  "date_args d = nat_digits (year d) @ '', '' @ nat_digits (month d) @ '', '' @ nat_digits (day d)"

definition time_args :: "pytime \<Rightarrow> string" where
  "time_args t = nat_digits (hour t) @ '', '' @ nat_digits (minute t)
     @ (if microsecond t \<noteq> 0 then '', '' @ nat_digits (second t) @ '', '' @ nat_digits (microsecond t)
        else if second t \<noteq> 0 then '', '' @ nat_digits (second t)
        else [])"

fun py_repr :: "pyval \<Rightarrow> string" where
  "py_repr (PStr s) = repr_str s"
| "py_repr (PDate d) = ''datetime.date('' @ date_args d @ '')''"
| "py_repr (PDateTime d t) = ''datetime.datetime('' @ date_args d @ '', '' @ time_args t @ '')''"
| "py_repr v = py_str v"

text \<open>
  Python's \<open>int(raw)\<close>. In a string, whitespace around the number is skipped (tab to
  carriage return, the space, U+0085 and U+00A0); one sign may precede the digits; the
  number is the longest run of decimal digits and underscores, which must start and end
  with a digit and have no two underscores in a row; nothing may follow it. A number of
  more than 4300 digits is refused (the interpreter's default limit). The message of an
  invalid literal shows at most 200 characters of the string's \<open>repr\<close>.
\<close>

definition int_isspace :: "char \<Rightarrow> bool" where
  "int_isspace c = (c \<in> set [CHR 0x09, CHR 0x0A, CHR 0x0B, CHR 0x0C, CHR 0x0D, CHR 0x20,
                               CHR 0x85, CHR 0xA0])"

definition digit_val :: "char \<Rightarrow> nat" where
  "digit_val c = (case map_of (zip digit_chars [0, 1, 2, 3, 4, 5, 6, 7, 8, 9]) c of Some d \<Rightarrow> d | None \<Rightarrow> 0)"

definition digits_value :: "string \<Rightarrow> nat" where
  "digits_value ds = foldl (\<lambda>acc c. acc * 10 + digit_val c) 0 ds"

definition in_number :: "char \<Rightarrow> bool" where
  "in_number c = (is_digit c \<or> c = CHR ''_'')"

fun double_underscore :: "string \<Rightarrow> bool" where
  "double_underscore (a # b # rest) = ((a = CHR ''_'' \<and> b = CHR ''_'') \<or> double_underscore (b # rest))"
| "double_underscore _ = False"

definition invalid_literal :: "string \<Rightarrow> error" where
  "invalid_literal s = ValueError (''invalid literal for int() with base 10: '' @ take 200 (repr_str s))"

definition too_many_digits :: "nat \<Rightarrow> error" where
  "too_many_digits n =
     ValueError (''Exceeds the limit (4300 digits) for integer string conversion: value has ''
                 @ nat_digits n @ '' digits; use sys.set_int_max_str_digits() to increase the limit'')"

definition int_of_string :: "string \<Rightarrow> error + int" where
  "int_of_string s =
     (let t = dropWhile int_isspace s;
          negative = (t \<noteq> [] \<and> hd t = CHR ''-'');
          u = (if t \<noteq> [] \<and> (hd t = CHR ''+'' \<or> hd t = CHR ''-'') then tl t else t);
          run = takeWhile in_number u;
          rest = dropWhile in_number u;
          ds = filter is_digit run
      in if run = [] \<or> hd run = CHR ''_'' \<or> last run = CHR ''_'' \<or> double_underscore run
         then Inl (invalid_literal s)
         else if 4300 < length ds then Inl (too_many_digits (length ds))
         else if dropWhile int_isspace rest \<noteq> [] then Inl (invalid_literal s)
         else Inr (if negative then - int (digits_value ds) else int (digits_value ds)))"

definition int_type_error :: "string \<Rightarrow> error" where
  "int_type_error tn =
     TypeError (''int() argument must be a string, a bytes-like object or a real number, not '' @ [CHR 0x27] @ tn @ [CHR 0x27])"

fun py_int :: "pyval \<Rightarrow> error + int" where
  "py_int (PInt i) = Inr i"
| "py_int (PBool b) = Inr (if b then 1 else 0)"
| "py_int (PStr s) = int_of_string s"
| "py_int PNone = Inl (int_type_error ''NoneType'')"
| "py_int (PDate d) = Inl (int_type_error ''datetime.date'')"
| "py_int (PDateTime d t) = Inl (int_type_error ''datetime.datetime'')"

text \<open>The \<open>parse\<close> closures of \<open>text_column\<close>, \<open>int_column\<close> and \<open>bool_column\<close>.\<close>

definition text_parse :: "bool \<Rightarrow> pyval \<Rightarrow> error + pyval" where
  "text_parse strip raw =
     (if raw = PNone then Inr (PStr '''')
      else let s = py_str raw in Inr (PStr (if strip then py_strip s else s)))"

definition int_parse :: "pyval \<Rightarrow> error + pyval" where
  "int_parse raw =
     (if raw = PNone \<or> py_eq raw (PStr '''') then Inr (PInt 0)
      else map_sum id PInt (py_int raw))"

definition is_bool :: "pyval \<Rightarrow> bool" where
  "is_bool v = (case v of PBool b \<Rightarrow> True | _ \<Rightarrow> False)"

definition bool_parse :: "pyval \<Rightarrow> error + pyval" where
  "bool_parse raw =
     (if raw = PNone \<or> py_eq raw (PStr '''') then Inr (PBool False)
      else if is_bool raw then Inr raw
      else let s = py_lower (py_strip (py_str raw)) in
           if s \<in> set [''true'', ''t'', ''yes'', ''y'', ''1''] then Inr (PBool True)
           else if s \<in> set [''false'', ''f'', ''no'', ''n'', ''0''] then Inr (PBool False)
           else Inl (ValueError (''Invalid boolean: '' @ py_str raw)))"

definition no_validator :: "pyval \<Rightarrow> error option" where
  "no_validator v = None"

definition text_column :: "string option \<Rightarrow> int option \<Rightarrow> pyval \<Rightarrow> bool \<Rightarrow> bool \<Rightarrow> column_spec" where
  "text_column h idx dflt strip nn =
     \<lparr>header = h, index = idx, default = dflt, required = False, not_null = nn,
      excludes = None, parser = text_parse strip, validator = no_validator\<rparr>"

definition int_column :: "string option \<Rightarrow> int option \<Rightarrow> pyval \<Rightarrow> bool \<Rightarrow> column_spec" where
  "int_column h idx dflt nn =
     \<lparr>header = h, index = idx, default = dflt, required = False, not_null = nn,
      excludes = None, parser = int_parse, validator = no_validator\<rparr>"

definition bool_column :: "string option \<Rightarrow> int option \<Rightarrow> pyval \<Rightarrow> column_spec" where
  "bool_column h idx dflt =
     \<lparr>header = h, index = idx, default = dflt, required = False, not_null = False,
      excludes = None, parser = bool_parse, validator = no_validator\<rparr>"

section \<open>Notions used in the statements\<close>

definition state_of :: "'s outcome \<Rightarrow> 's" where
  "state_of out = (case out of Completed st \<Rightarrow> st | Raised e st \<Rightarrow> st)"

definition referenced_models :: "sheet_spec list \<Rightarrow> model list" where
  "referenced_models shs = concat (map models shs)"

definition repo_of :: "excel_file \<Rightarrow> model \<Rightarrow> addr option" where
  "repo_of xf m = map_of (repos xf) (class_id m)"

text \<open>The raw values of a block's row, and the normalised cells of a header row.\<close>

definition row_values :: "worksheet \<Rightarrow> int \<Rightarrow> int \<Rightarrow> nat \<Rightarrow> pyval list" where
  "row_values ws r start_col width = map (\<lambda>j. cell_value ws r (start_col + int j)) [0..<width]"

definition actual_headers :: "worksheet \<Rightarrow> int \<Rightarrow> int \<Rightarrow> nat \<Rightarrow> string list" where
  "actual_headers ws r start_col width = map normalize_header (row_values ws r start_col width)"

text \<open>The candidate start columns of the locator, and a match at one of them.\<close>

definition is_candidate :: "worksheet \<Rightarrow> model \<Rightarrow> int \<Rightarrow> bool" where
  "is_candidate ws m c = (1 \<le> c \<and> c + int (length (expected_headers m)) \<le> max_column ws + 1)"

definition header_matches :: "worksheet \<Rightarrow> sheet_spec \<Rightarrow> model \<Rightarrow> int \<Rightarrow> bool" where
  "header_matches ws sp m c =
     (actual_headers ws (header_row sp) c (length (expected_headers m)) = expected_headers m)"

definition cell_error :: error where
  "cell_error = ValueError ''Row or column values must be at least 1''"

text \<open>
  A sheet specification without the record types that a predicate rejects, and without
  the record types that the locator does not find on the specification's sheet of a
  document, or that have no columns.
\<close>

definition keep_models :: "(model \<Rightarrow> bool) \<Rightarrow> sheet_spec \<Rightarrow> sheet_spec" where
  "keep_models keep sp = sp\<lparr>models := filter keep (models sp)\<rparr>"

definition located_only :: "workbook \<Rightarrow> sheet_spec \<Rightarrow> sheet_spec" where
  "located_only wb sp =
     (case map_of wb (sheet_name sp) of
        None \<Rightarrow> sp
      | Some ws \<Rightarrow> keep_models (\<lambda>m. find_header ws sp m \<noteq> Inr None) sp)"

definition with_columns_only :: "sheet_spec \<Rightarrow> sheet_spec" where
  "with_columns_only sp = keep_models (\<lambda>m. get_model_columns m \<noteq> []) sp"

text \<open>
  No reference to a record type stored in repository \<open>a\<close> is located on its sheet of the
  document; every record type stored in repository \<open>a\<close> has no columns.
\<close>

definition located_nowhere :: "workbook \<Rightarrow> excel_file \<Rightarrow> addr \<Rightarrow> bool" where
  "located_nowhere wb xf a =
     list_all (\<lambda>sp. list_all (\<lambda>m. repo_of xf m \<noteq> Some a \<or>
                  (case map_of wb (sheet_name sp) of None \<Rightarrow> True
                   | Some ws \<Rightarrow> find_header ws sp m = Inr None)) (models sp)) (sheets xf)"

definition holds_empty_schemas :: "excel_file \<Rightarrow> addr \<Rightarrow> bool" where
  "holds_empty_schemas xf a =
     list_all (\<lambda>sp. list_all (\<lambda>m. repo_of xf m \<noteq> Some a \<or> get_model_columns m = []) (models sp)) (sheets xf)"

text \<open>Every sheet specification has its sheet in the document.\<close>

definition all_sheets_present :: "workbook \<Rightarrow> sheet_spec list \<Rightarrow> bool" where
  "all_sheets_present wb sps = list_all (\<lambda>sp. map_of wb (sheet_name sp) \<noteq> None) sps"

text \<open>Building one record per row, in order, stopping at the first failure.\<close>

fun append_records :: "model \<Rightarrow> column list \<Rightarrow> pyval list list \<Rightarrow> obj list \<Rightarrow> (obj list) outcome" where
  "append_records m cols [] repo = Completed repo"
| "append_records m cols (row # rows) repo =
     (case make_record m cols row of
        Inl e \<Rightarrow> Raised e repo
      | Inr ob \<Rightarrow> append_records m cols rows (repo @ [ob]))"

text \<open>The rows of a block from row \<open>r0\<close> up to, and without, row \<open>r1\<close>.\<close>

definition block_rows :: "worksheet \<Rightarrow> column list \<Rightarrow> int \<Rightarrow> int \<Rightarrow> int \<Rightarrow> pyval list list" where
  "block_rows ws cols start_col r0 r1 = map (\<lambda>r. row_values ws r start_col (length cols)) [r0..r1 - 1]"

text \<open>The outcome of a load on a repository's contents, stored back in the orchestrator.\<close>

definition store_rows :: "excel_file \<Rightarrow> addr \<Rightarrow> (obj list) outcome \<Rightarrow> excel_file outcome" where
  "store_rows xf a out =
     (case out of
        Completed rs \<Rightarrow> Completed (xf\<lparr>heap := (heap xf)(a := rs)\<rparr>)
      | Raised e rs \<Rightarrow> Raised e (xf\<lparr>heap := (heap xf)(a := rs)\<rparr>))"

definition reserved_attrs :: "string list" where
  "reserved_attrs = instance_attrs @ class_attrs @ object_attrs"

definition duplicate_error :: "model \<Rightarrow> error" where
  "duplicate_error m =
     ValueError (''Duplicate repo name '' @ quote (repo_name_for_model m) @ '' for model '' @ class_name m)"

definition missing_sheet_error :: "sheet_spec \<Rightarrow> error" where
  "missing_sheet_error sp = ValueError (''Workbook missing sheet '' @ quote (sheet_name sp))"

text \<open>A class identity stands for one class.\<close>

definition types_consistent :: "model list \<Rightarrow> bool" where
  "types_consistent ms = (\<forall>m1\<in>set ms. \<forall>m2\<in>set ms. class_id m1 = class_id m2 \<longrightarrow> m1 = m2)"

text \<open>Every list object the orchestrator refers to has been allocated.\<close>

definition addresses_allocated :: "excel_file \<Rightarrow> bool" where
  "addresses_allocated xf = list_all (\<lambda>(k, a). a < next_addr xf) (repos xf)"

text \<open>
  Row \<open>stop\<close> ends the block scanned from row \<open>r0\<close>: every row of the block from \<open>r0\<close> up to
  \<open>stop\<close> has a cell that is not blank, and \<open>stop\<close> is either a row of the sheet that is
  blank across the block's width or, when the scan reaches the end of the sheet, the first
  row past it.
\<close>

definition ends_block :: "worksheet \<Rightarrow> column list \<Rightarrow> int \<Rightarrow> int \<Rightarrow> int \<Rightarrow> bool" where
  "ends_block ws cols start_col r0 stop =
     (r0 \<le> stop
      \<and> list_all (\<lambda>row. \<not> row_is_blank row) (block_rows ws cols start_col r0 stop)
      \<and> (if stop \<le> max_row ws then row_is_blank (row_values ws stop start_col (length cols))
         else stop = max r0 (max_row ws + 1)))"

section \<open>The schema of the test suite\<close>

definition car_model :: model where
  "car_model =
     \<lparr>class_id = 0, class_name = ''Car'',
      annotations = [(''make'', AColumn (text_column (Some ''Make'') None PNone True True)),
                     (''model'', AColumn (text_column (Some ''Model'') None PNone True True)),
                     (''year'', AColumn (int_column (Some ''Year'') None PNone True))],
      validate = None\<rparr>"

definition plant_model :: model where
  "plant_model =
     \<lparr>class_id = 1, class_name = ''ManufacturingPlant'',
      annotations = [(''name'', AColumn (text_column (Some ''Factory Name'') None PNone True True)),
                     (''location'', AColumn (text_column (Some ''Location'') None PNone True False))],
      validate = None\<rparr>"

definition cars_sheet :: sheet_spec where
  "cars_sheet =
     \<lparr>sheet_name = ''Cars'', models = [car_model, plant_model],
      title_row = 1, header_row = 2, data_start_row = 3, template_table_gap = 2\<rparr>"

text \<open>A worksheet holding a grid of values, the first list being row 1.\<close>

definition grid_cell :: "pyval list list \<Rightarrow> int \<Rightarrow> int \<Rightarrow> pyval" where
  "grid_cell rows r c =
     (if 1 \<le> r \<and> r \<le> int (length rows) \<and> 1 \<le> c \<and> c \<le> int (length (rows ! nat (r - 1)))
      then rows ! nat (r - 1) ! nat (c - 1) else PNone)"

definition grid_sheet :: "pyval list list \<Rightarrow> worksheet" where
  "grid_sheet rows =
     \<lparr>cell_value = grid_cell rows,
      max_row = max 1 (int (length rows)),
      max_column = fold max (map (\<lambda>row. int (length row)) rows) 1\<rparr>"

text \<open>
  The data sheet of the end-to-end test, followed by a blank row and one more row of
  cars.
\<close>

definition data_sheet :: worksheet where
  "data_sheet = grid_sheet
     [[PStr ''Cars'', PNone, PNone, PNone, PNone, PStr ''Manufacturing Plants'', PNone],
      [PStr ''Make'', PStr ''Model'', PStr ''Year'', PNone, PNone, PStr ''Factory Name'', PStr ''Location''],
      [PStr ''Toyota'', PStr ''Camry'', PInt 2020, PNone, PNone, PStr ''Plant 1'', PStr ''NJ''],
      [PStr ''Honda'', PStr ''Civic'', PStr ''2019'', PNone, PNone, PStr ''Plant 2'', PStr ''PA''],
      [PNone, PNone, PNone],
      [PStr ''Ford'', PStr ''Focus'', PInt 2018]]"

text \<open>The orchestrator of the test suite, as constructed and after loading the data sheet.\<close>

definition car_file :: excel_file where
  "car_file =
     \<lparr>sheets = [cars_sheet], repos = [(0, 0), (1, 1)],
      attrs = [(''cars'', 0), (''manufacturing_plants'', 1)],
      heap = (\<lambda>_. []), next_addr = 2\<rparr>"

definition car_records :: "obj list" where
  "car_records =
     [[(''make'', PStr ''Toyota''), (''model'', PStr ''Camry''), (''year'', PInt 2020)],
      [(''make'', PStr ''Honda''), (''model'', PStr ''Civic''), (''year'', PInt 2019)]]"

definition plant_records :: "obj list" where
  "plant_records =
     [[(''name'', PStr ''Plant 1''), (''location'', PStr ''NJ'')],
      [(''name'', PStr ''Plant 2''), (''location'', PStr ''PA'')]]"

definition loaded_file :: excel_file where
  "loaded_file = car_file\<lparr>heap := (\<lambda>_. [])(0 := car_records, 1 := plant_records)\<rparr>"

text \<open>The document of the missing-sheet test: one empty sheet under another name.\<close>

definition wrong_workbook :: workbook where
  "wrong_workbook = [(''NotCars'', grid_sheet [])]"

text \<open>A sheet without the plants' header block.\<close>

definition cars_only_sheet :: worksheet where
  "cars_only_sheet = grid_sheet
     [[PStr ''Cars''],
      [PStr ''Make'', PStr ''Model'', PStr ''Year''],
      [PStr ''Toyota'', PStr ''Camry'', PInt 2020]]"

text \<open>
  A record type without columns, placed before the cars on their sheet, and the
  orchestrator of the two after a load.
\<close>

definition note_model :: model where
  "note_model =
     \<lparr>class_id = 2, class_name = ''Note'', annotations = [(''text'', AOther)], validate = None\<rparr>"

definition notes_sheet :: sheet_spec where
  "notes_sheet = cars_sheet\<lparr>models := [note_model, car_model]\<rparr>"

definition note_file :: excel_file where
  "note_file =
     \<lparr>sheets = [notes_sheet], repos = [(2, 0), (0, 1)], attrs = [(''notes'', 0), (''cars'', 1)],
      heap = (\<lambda>_. [])(0 := [[(''stale'', PInt 1)]], 1 := car_records), next_addr = 2\<rparr>"

text \<open>A record type with one excluding column, and a sheet with an excluded row.\<close>

definition part_model :: model where
  "part_model =
     \<lparr>class_id = 3, class_name = ''Part'',
      annotations = [(''code'', AColumn ((int_column (Some ''Code'') None PNone False)\<lparr>excludes := Some [PStr ''n/a'']\<rparr>)),
                     (''label'', AColumn (text_column (Some ''Label'') None PNone True False))],
      validate = None\<rparr>"

definition parts_sheet :: worksheet where
  "parts_sheet = grid_sheet
     [[PStr ''Parts''],
      [PStr ''Code'', PStr ''Label''],
      [PInt 7, PStr ''bolt''],
      [PStr ''n/a'', PStr ''retired''],
      [PInt 9, PStr ''nut'']]"

definition part_records :: "obj list" where
  "part_records =
     [[(''code'', PInt 7), (''label'', PStr ''bolt'')],
      [(''code'', PInt 9), (''label'', PStr ''nut'')]]"

definition parts_spec :: sheet_spec where
  "parts_spec =
     \<lparr>sheet_name = ''Parts'', models = [part_model],
      title_row = 1, header_row = 2, data_start_row = 3, template_table_gap = 2\<rparr>"

definition part_file :: excel_file where
  "part_file =
     \<lparr>sheets = [parts_spec], repos = [(3, 0)], attrs = [(''parts'', 0)],
      heap = (\<lambda>_. [])(0 := [[(''code'', PInt 1), (''label'', PStr ''washer'')]]), next_addr = 1\<rparr>"

text \<open>A second class that derives the repository name of \<open>Car\<close>, and sheets that reuse a name.\<close>

definition cars_class_model :: model where
  "cars_class_model = \<lparr>class_id = 4, class_name = ''Cars'', annotations = [], validate = None\<rparr>"

definition clash_sheet :: sheet_spec where
  "clash_sheet = cars_sheet\<lparr>models := [car_model, cars_class_model]\<rparr>"

definition twice_sheet :: sheet_spec where
  "twice_sheet = cars_sheet\<lparr>models := [car_model, car_model]\<rparr>"

section \<open>Auxiliary lemmas\<close>

lemma read_cells_ok:
  "1 \<le> r \<Longrightarrow> \<forall>c\<in>set cs. 1 \<le> c \<Longrightarrow> read_cells ws r cs = Inr (map (cell_value ws r) cs)"
  by (induction cs) (auto simp: cell_read_def)

lemma read_cells_bad_row:
  "r < 1 \<Longrightarrow> cs \<noteq> [] \<Longrightarrow> read_cells ws r cs = Inl cell_error"
  by (cases cs) (auto simp: cell_read_def cell_error_def)

lemma read_row_ok:
  "1 \<le> r \<Longrightarrow> 1 \<le> sc \<Longrightarrow> read_row ws r sc w = Inr (row_values ws r sc w)"
  unfolding read_row_def row_values_def
  by (subst read_cells_ok) (auto simp: comp_def)

lemma read_row_bad_row:
  "r < 1 \<Longrightarrow> 0 < w \<Longrightarrow> read_row ws r sc w = Inl cell_error"
  unfolding read_row_def by (rule read_cells_bad_row) auto

lemma read_row_empty: "read_row ws r sc 0 = Inr []"
  by (simp add: read_row_def)

lemma find_header_loop_step:
  "1 \<le> r \<Longrightarrow> 1 \<le> c \<Longrightarrow>
   find_header_loop ws r e (c # cs) =
     (if actual_headers ws r c (length e) = e then Inr (Some (r, c)) else find_header_loop ws r e cs)"
  by (simp add: read_row_ok actual_headers_def)

lemma find_header_loop_None_iff:
  assumes "1 \<le> r" and "\<forall>c\<in>set cs. 1 \<le> c"
  shows "find_header_loop ws r e cs = Inr None \<longleftrightarrow> (\<forall>c\<in>set cs. actual_headers ws r c (length e) \<noteq> e)"
  using assms(2)
proof (induction cs)
  case Nil
  then show ?case by simp
next
  case (Cons a cs)
  then show ?case using assms(1) by (simp add: read_row_ok actual_headers_def)
qed

lemma find_header_loop_not_raised:
  assumes "1 \<le> r" and "\<forall>c\<in>set cs. 1 \<le> c"
  shows "find_header_loop ws r e cs \<noteq> Inl err"
  using assms(2)
proof (induction cs)
  case Nil
  then show ?case by simp
next
  case (Cons a cs)
  then show ?case using assms(1) by (simp add: read_row_ok actual_headers_def)
qed

lemma find_header_loop_Some_iff:
  assumes "1 \<le> r" and "\<forall>c\<in>set cs. 1 \<le> c"
  shows "find_header_loop ws r e cs = Inr (Some (r', c)) \<longleftrightarrow>
     r' = r \<and> (\<exists>pre post. cs = pre @ c # post \<and> actual_headers ws r c (length e) = e
                 \<and> (\<forall>c'\<in>set pre. actual_headers ws r c' (length e) \<noteq> e))"
  using assms(2)
proof (induction cs)
  case Nil
  then show ?case by simp
next
  case (Cons a cs)
  then have a1: "1 \<le> a" and rest: "\<forall>c\<in>set cs. 1 \<le> c" by simp_all
  note IH = Cons.IH[OF rest]
  note step = find_header_loop_step[OF assms(1) a1, of ws e cs]
  show ?case
  proof (cases "actual_headers ws r a (length e) = e")
    case True
    have "(\<exists>pre post. a # cs = pre @ c # post \<and> actual_headers ws r c (length e) = e
                 \<and> (\<forall>c'\<in>set pre. actual_headers ws r c' (length e) \<noteq> e)) \<longleftrightarrow> c = a"
    proof
      assume "\<exists>pre post. a # cs = pre @ c # post \<and> actual_headers ws r c (length e) = e
                 \<and> (\<forall>c'\<in>set pre. actual_headers ws r c' (length e) \<noteq> e)"
      then obtain pre post where p: "a # cs = pre @ c # post"
        and q: "\<forall>c'\<in>set pre. actual_headers ws r c' (length e) \<noteq> e" by blast
      show "c = a"
      proof (cases pre)
        case Nil
        then show ?thesis using p by simp
      next
        case (Cons x xs)
        then have "x = a" using p by simp
        then show ?thesis using q Cons True by simp
      qed
    next
      assume "c = a"
      then have "a # cs = [] @ c # cs" by simp
      then show "\<exists>pre post. a # cs = pre @ c # post \<and> actual_headers ws r c (length e) = e
                 \<and> (\<forall>c'\<in>set pre. actual_headers ws r c' (length e) \<noteq> e)"
        using True \<open>c = a\<close> by (metis empty_iff list.set(1))
    qed
    then show ?thesis using True step by auto
  next
    case False
    have "(\<exists>pre post. a # cs = pre @ c # post \<and> actual_headers ws r c (length e) = e
                 \<and> (\<forall>c'\<in>set pre. actual_headers ws r c' (length e) \<noteq> e)) \<longleftrightarrow>
          (\<exists>pre post. cs = pre @ c # post \<and> actual_headers ws r c (length e) = e
                 \<and> (\<forall>c'\<in>set pre. actual_headers ws r c' (length e) \<noteq> e))" (is "?L \<longleftrightarrow> ?R")
    proof
      assume ?L
      then obtain pre post where p: "a # cs = pre @ c # post"
        and m: "actual_headers ws r c (length e) = e"
        and q: "\<forall>c'\<in>set pre. actual_headers ws r c' (length e) \<noteq> e" by blast
      show ?R
      proof (cases pre)
        case Nil
        then show ?thesis using p m False by simp
      next
        case (Cons x xs)
        then have "cs = xs @ c # post" using p by simp
        moreover have "\<forall>c'\<in>set xs. actual_headers ws r c' (length e) \<noteq> e" using q Cons by simp
        ultimately show ?thesis using m by blast
      qed
    next
      assume ?R
      then obtain pre post where p: "cs = pre @ c # post"
        and m: "actual_headers ws r c (length e) = e"
        and q: "\<forall>c'\<in>set pre. actual_headers ws r c' (length e) \<noteq> e" by blast
      have "a # cs = (a # pre) @ c # post" using p by simp
      moreover have "\<forall>c'\<in>set (a # pre). actual_headers ws r c' (length e) \<noteq> e" using q False by simp
      ultimately show ?L using m by blast
    qed
    then show ?thesis using False IH step by simp
  qed
qed

lemma upto_split_at:
  "[a..b] = pre @ c # post \<Longrightarrow> a \<le> c \<and> c \<le> b \<and> set pre = {a..<c}"
proof (induction pre arbitrary: a)
  case Nil
  then have "a \<le> b" by (cases "a \<le> b") (auto simp: upto.simps[of a b])
  then show ?case using Nil by (auto simp: upto.simps[of a b])
next
  case (Cons x xs)
  then have le: "a \<le> b" by (cases "a \<le> b") (auto simp: upto.simps[of a b])
  then have "[a..b] = a # [a + 1..b]" by (simp add: upto.simps[of a b])
  with Cons.prems have xa: "x = a" and rest: "[a + 1..b] = xs @ c # post" by auto
  from Cons.IH[OF rest] have "a + 1 \<le> c" "c \<le> b" "set xs = {a + 1..<c}" by auto
  then show ?case using xa by auto
qed

lemma find_header_loop_upto:
  assumes "1 \<le> r" and "1 \<le> a"
  shows "find_header_loop ws r e [a..b] = Inr (Some (r', c)) \<longleftrightarrow>
     r' = r \<and> a \<le> c \<and> c \<le> b \<and> actual_headers ws r c (length e) = e
     \<and> (\<forall>c'. a \<le> c' \<and> c' < c \<longrightarrow> actual_headers ws r c' (length e) \<noteq> e)" (is "?L \<longleftrightarrow> ?R")
proof -
  have pos: "\<forall>c\<in>set [a..b]. 1 \<le> c" using assms(2) by auto
  show ?thesis
  proof
    assume ?L
    then obtain pre post where r: "r' = r" and p: "[a..b] = pre @ c # post"
      and m: "actual_headers ws r c (length e) = e"
      and q: "\<forall>c'\<in>set pre. actual_headers ws r c' (length e) \<noteq> e"
      unfolding find_header_loop_Some_iff[OF assms(1) pos] by blast
    from upto_split_at[OF p] have "a \<le> c" "c \<le> b" "set pre = {a..<c}" by auto
    then show ?R using r m q by auto
  next
    assume R: ?R
    then have "[a..b] = [a..c - 1] @ c # [c + 1..b]" by (simp add: upto_split3)
    moreover have "\<forall>c'\<in>set [a..c - 1]. actual_headers ws r c' (length e) \<noteq> e" using R by auto
    ultimately show ?L unfolding find_header_loop_Some_iff[OF assms(1) pos] using R by blast
  qed
qed

lemma find_header_loop_bad_row:
  "r < 1 \<Longrightarrow> e \<noteq> [] \<Longrightarrow> cs \<noteq> [] \<Longrightarrow> find_header_loop ws r e cs = Inl cell_error"
  by (cases cs) (simp_all add: read_row_bad_row)

lemma find_header_no_columns:
  "get_model_columns m = [] \<Longrightarrow> find_header ws sp m = Inr None"
  by (simp add: find_header_def expected_headers_def)

lemma parse_model_not_found:
  "find_header ws sp m = Inr None \<Longrightarrow> parse_model ws sp m xf = Completed xf"
  by (simp add: parse_model_def)

lemma parse_model_repos:
  "repos (state_of (parse_model ws sp m xf)) = repos xf"
  by (simp add: parse_model_def state_of_def Let_def
           split: option.splits outcome.splits prod.splits sum.splits)

lemma parse_model_heap:
  "repo_of xf m \<noteq> Some a \<or> find_header ws sp m = Inr None \<Longrightarrow>
   heap (state_of (parse_model ws sp m xf)) a = heap xf a"
  by (auto simp: parse_model_def state_of_def repo_of_def Let_def
           split: option.splits outcome.splits prod.splits sum.splits)

lemma parse_models_frame:
  "list_all (\<lambda>m. repo_of xf m \<noteq> Some a \<or> find_header ws sp m = Inr None) ms \<Longrightarrow>
   heap (state_of (parse_models ws sp ms xf)) a = heap xf a
   \<and> repos (state_of (parse_models ws sp ms xf)) = repos xf"
proof (induction ms arbitrary: xf)
  case Nil
  then show ?case by (simp add: state_of_def)
next
  case (Cons m ms)
  let ?o = "parse_model ws sp m xf"
  have h: "heap (state_of ?o) a = heap xf a" using Cons.prems parse_model_heap by simp
  have r: "repos (state_of ?o) = repos xf" by (rule parse_model_repos)
  show ?case
  proof (cases ?o)
    case (Completed xf')
    then have s: "state_of ?o = xf'" by (simp add: state_of_def)
    have "list_all (\<lambda>m. repo_of xf' m \<noteq> Some a \<or> find_header ws sp m = Inr None) ms"
      using Cons.prems r s by (simp add: repo_of_def)
    from Cons.IH[OF this] show ?thesis using Completed h r s by simp
  next
    case (Raised e xf')
    then show ?thesis using h r by (simp add: state_of_def)
  qed
qed

lemma load_sheets_frame:
  "list_all (\<lambda>sp. list_all (\<lambda>m. repo_of xf m \<noteq> Some a \<or>
                  (case map_of wb (sheet_name sp) of None \<Rightarrow> True
                   | Some ws \<Rightarrow> find_header ws sp m = Inr None)) (models sp)) sps \<Longrightarrow>
   heap (state_of (load_sheets wb sps xf)) a = heap xf a"
proof (induction sps arbitrary: xf)
  case Nil
  then show ?case by (simp add: state_of_def)
next
  case (Cons sp sps)
  show ?case
  proof (cases "map_of wb (sheet_name sp)")
    case None
    then show ?thesis by (simp add: state_of_def)
  next
    case (Some ws)
    have "list_all (\<lambda>m. repo_of xf m \<noteq> Some a \<or> find_header ws sp m = Inr None) (models sp)"
      using Cons.prems Some by simp
    from parse_models_frame[OF this]
    have h: "heap (state_of (parse_sheet ws sp xf)) a = heap xf a"
      and r: "repos (state_of (parse_sheet ws sp xf)) = repos xf"
      by (simp_all add: parse_sheet_def)
    show ?thesis
    proof (cases "parse_sheet ws sp xf")
      case (Completed xf')
      then have s: "state_of (parse_sheet ws sp xf) = xf'" by (simp add: state_of_def)
      have "list_all (\<lambda>sp. list_all (\<lambda>m. repo_of xf' m \<noteq> Some a \<or>
                  (case map_of wb (sheet_name sp) of None \<Rightarrow> True
                   | Some ws \<Rightarrow> find_header ws sp m = Inr None)) (models sp)) sps"
        using Cons.prems r s by (simp add: repo_of_def)
      from Cons.IH[OF this] show ?thesis using Some Completed h s by simp
    next
      case (Raised e xf')
      then show ?thesis using Some h by (simp add: state_of_def)
    qed
  qed
qed

lemma fold_clear:
  "fold (\<lambda>(_, repo) h. h(repo := [])) rs h a = (if a \<in> snd ` set rs then [] else h a)"
  by (induction rs arbitrary: h) (auto split: prod.splits)

lemma clear_repos_heap:
  "heap (clear_repos xf) a = (if a \<in> snd ` set (repos xf) then [] else heap xf a)"
  by (simp add: clear_repos_def fold_clear)

lemma clear_repos_fields:
  "repos (clear_repos xf) = repos xf" "sheets (clear_repos xf) = sheets xf"
  by (simp_all add: clear_repos_def)

lemma repo_of_cleared:
  assumes "repo_of xf m = Some a"
  shows "heap (clear_repos xf) a = []"
proof -
  have "(class_id m, a) \<in> set (repos xf)" using assms by (simp add: repo_of_def map_of_SomeD)
  then have "a \<in> snd ` set (repos xf)" by (metis image_eqI snd_conv)
  then show ?thesis by (simp add: clear_repos_heap)
qed

lemma load_data_not_located:
  assumes "repo_of xf m = Some a" and "located_nowhere wb xf a"
  shows "heap (state_of (load_data wb xf)) a = []"
proof -
  have c: "heap (clear_repos xf) a = []" using assms(1) by (rule repo_of_cleared)
  have "list_all (\<lambda>sp. list_all (\<lambda>m. repo_of (clear_repos xf) m \<noteq> Some a \<or>
                  (case map_of wb (sheet_name sp) of None \<Rightarrow> True
                   | Some ws \<Rightarrow> find_header ws sp m = Inr None)) (models sp)) (sheets xf)"
    using assms(2) by (simp add: located_nowhere_def repo_of_def clear_repos_fields)
  from load_sheets_frame[OF this] show ?thesis using c by (simp add: load_data_def)
qed

text \<open>Record types that are not located can be dropped from the specifications.\<close>

lemma parse_models_keep:
  assumes "\<forall>m\<in>set ms. \<not> keep m \<longrightarrow> find_header ws sp m = Inr None"
  shows "parse_models ws sp ms xf = parse_models ws sp (filter keep ms) xf"
  using assms
proof (induction ms arbitrary: xf)
  case Nil
  then show ?case by simp
next
  case (Cons m ms)
  then have rest: "\<forall>m\<in>set ms. \<not> keep m \<longrightarrow> find_header ws sp m = Inr None" by simp
  show ?case
  proof (cases "keep m")
    case True
    then show ?thesis using Cons.IH[OF rest] by (simp split: outcome.splits)
  next
    case False
    then have "parse_model ws sp m xf = Completed xf"
      using Cons.prems by (simp add: parse_model_not_found)
    then show ?thesis using False Cons.IH[OF rest] by simp
  qed
qed

lemma find_header_models_update:
  "find_header ws (sp\<lparr>models := ms\<rparr>) m = find_header ws sp m"
  by (simp add: find_header_def Let_def)

lemma parse_model_models_update:
  "parse_model ws (sp\<lparr>models := ms\<rparr>) m xf = parse_model ws sp m xf"
  by (simp add: parse_model_def find_header_models_update Let_def
        split: sum.splits option.splits prod.splits)

lemma parse_models_models_update:
  "parse_models ws (sp\<lparr>models := ms'\<rparr>) ms xf = parse_models ws sp ms xf"
  by (induction ms arbitrary: xf) (simp_all add: parse_model_models_update split: outcome.splits)

lemma parse_sheet_keep:
  assumes "\<forall>m\<in>set (models sp). \<not> keep m \<longrightarrow> find_header ws sp m = Inr None"
  shows "parse_sheet ws (keep_models keep sp) xf = parse_sheet ws sp xf"
  using parse_models_keep[OF assms, of xf]
  by (simp add: parse_sheet_def keep_models_def parse_models_models_update)

lemma load_sheets_located_only:
  "load_sheets wb (map (located_only wb) sps) xf = load_sheets wb sps xf"
proof (induction sps arbitrary: xf)
  case Nil
  then show ?case by simp
next
  case (Cons sp sps)
  show ?case
  proof (cases "map_of wb (sheet_name sp)")
    case None
    then show ?thesis by (simp add: located_only_def)
  next
    case (Some ws)
    have n: "sheet_name (located_only wb sp) = sheet_name sp"
      using Some by (simp add: located_only_def keep_models_def)
    have "parse_sheet ws (located_only wb sp) xf = parse_sheet ws sp xf" for xf
      using Some parse_sheet_keep[of sp "\<lambda>m. find_header ws sp m \<noteq> Inr None" ws xf]
      by (simp add: located_only_def)
    then show ?thesis using Some n Cons.IH by (simp split: outcome.splits)
  qed
qed

lemma load_sheets_with_columns_only:
  "load_sheets wb (map with_columns_only sps) xf = load_sheets wb sps xf"
proof (induction sps arbitrary: xf)
  case Nil
  then show ?case by simp
next
  case (Cons sp sps)
  have n: "sheet_name (with_columns_only sp) = sheet_name sp"
    by (simp add: with_columns_only_def keep_models_def)
  have "parse_sheet ws (with_columns_only sp) xf = parse_sheet ws sp xf" for ws xf
    using parse_sheet_keep[of sp "\<lambda>m. get_model_columns m \<noteq> []" ws xf]
    by (simp add: with_columns_only_def find_header_no_columns)
  then show ?case using n Cons.IH by (simp split: option.splits outcome.splits)
qed

lemma load_sheets_no_models:
  "all_sheets_present wb sps \<Longrightarrow> \<forall>sp\<in>set sps. models sp = [] \<Longrightarrow> load_sheets wb sps xf = Completed xf"
  by (induction sps) (auto simp: all_sheets_present_def parse_sheet_def)

lemma all_sheets_present_map:
  "\<forall>sp. sheet_name (f sp) = sheet_name sp \<Longrightarrow> all_sheets_present wb (map f sps) = all_sheets_present wb sps"
  by (simp add: all_sheets_present_def list_all_iff)

lemma parse_models_drop:
  assumes "find_header ws sp m = Inr None"
  shows "parse_models ws sp (pre @ m # post) xf = parse_models ws sp (pre @ post) xf"
proof (induction pre arbitrary: xf)
  case Nil
  then show ?case using assms by (simp add: parse_model_not_found)
next
  case (Cons p pre)
  then show ?case by (simp split: outcome.splits)
qed

lemma load_sheets_drop_type:
  assumes "get_model_columns m = []"
  shows "load_sheets wb (map (keep_models (\<lambda>m'. m' \<noteq> m)) sps) xf = load_sheets wb sps xf"
proof (induction sps arbitrary: xf)
  case Nil
  then show ?case by simp
next
  case (Cons sp sps)
  have n: "sheet_name (keep_models (\<lambda>m'. m' \<noteq> m) sp) = sheet_name sp"
    by (simp add: keep_models_def)
  have "parse_sheet ws (keep_models (\<lambda>m'. m' \<noteq> m) sp) xf = parse_sheet ws sp xf" for ws xf
    using parse_sheet_keep[of sp "\<lambda>m'. m' \<noteq> m" ws xf] assms
    by (simp add: find_header_no_columns)
  then show ?case using n Cons.IH by (simp split: option.splits outcome.splits)
qed

lemma load_sheets_only_unlocated:
  assumes "all_sheets_present wb sps"
    and "\<forall>sp\<in>set sps. \<forall>ws. map_of wb (sheet_name sp) = Some ws \<longrightarrow>
           (\<forall>m\<in>set (models sp). find_header ws sp m = Inr None)"
  shows "load_sheets wb sps xf = Completed xf"
  using assms
proof (induction sps)
  case Nil
  then show ?case by simp
next
  case (Cons sp sps)
  then obtain ws where ws: "map_of wb (sheet_name sp) = Some ws"
    by (auto simp: all_sheets_present_def)
  have "\<forall>m\<in>set (models sp). \<not> False \<longrightarrow> find_header ws sp m = Inr None"
    using Cons.prems(2) ws by simp
  from parse_models_keep[OF this, of xf]
  have "parse_sheet ws sp xf = Completed xf" by (simp add: parse_sheet_def)
  moreover have "load_sheets wb sps xf = Completed xf"
    using Cons by (simp add: all_sheets_present_def)
  ultimately show ?case using ws by simp
qed

lemma fst_in_keys: "(k, v) \<in> set d \<Longrightarrow> k \<in> fst ` set d"
  by (metis fst_conv image_eqI)

lemma dict_set_keys: "fst ` set (dict_set k v d) = insert k (fst ` set d)"
proof (induction d)
  case Nil
  then show ?case by simp
next
  case (Cons p d)
  obtain k' v' where p: "p = (k', v')" by (cases p)
  show ?case
  proof (cases "k' = k")
    case True
    then show ?thesis using p by simp
  next
    case False
    then show ?thesis using p Cons.IH by (simp add: insert_commute)
  qed
qed

lemma dict_set_fresh: "k \<notin> fst ` set d \<Longrightarrow> dict_set k v d = d @ [(k, v)]"
proof (induction d)
  case Nil
  then show ?case by simp
next
  case (Cons p d)
  obtain k' v' where p: "p = (k', v')" by (cases p)
  then have "k' \<noteq> k" and "k \<notin> fst ` set d" using Cons.prems by auto
  then show ?case using p Cons.IH by simp
qed

lemma hasattr_iff:
  "hasattr xf nm \<longleftrightarrow> nm \<in> fst ` set (attrs xf) \<or> nm \<in> set reserved_attrs"
  by (auto simp: hasattr_def reserved_attrs_def)

lemma register_model_Inr:
  assumes "register_model m xf = Inr xf'"
  shows "\<not> hasattr xf (repo_name_for_model m)
     \<and> fst ` set (attrs xf') = insert (repo_name_for_model m) (fst ` set (attrs xf))"
proof -
  have nh: "\<not> hasattr xf (repo_name_for_model m)"
    using assms by (auto simp: register_model_def Let_def split: if_splits)
  then have "attrs xf' = dict_set (repo_name_for_model m) (next_addr xf) (attrs xf)"
    using assms by (auto simp: register_model_def Let_def)
  then show ?thesis using nh by (simp only: dict_set_keys simp_thms)
qed

lemma register_model_Inl:
  "register_model m xf = Inl e \<Longrightarrow> hasattr xf (repo_name_for_model m) \<and> e = duplicate_error m"
  by (auto simp: register_model_def Let_def duplicate_error_def split: if_splits)

lemma register_models_Inr:
  "register_models ms xf = Inr xf' \<Longrightarrow>
     distinct (map repo_name_for_model ms)
     \<and> (\<forall>m\<in>set ms. \<not> hasattr xf (repo_name_for_model m))
     \<and> fst ` set (attrs xf') = repo_name_for_model ` set ms \<union> fst ` set (attrs xf)"
proof (induction ms arbitrary: xf)
  case Nil
  then show ?case by simp
next
  case (Cons m ms)
  then obtain xf1 where 1: "register_model m xf = Inr xf1" and 2: "register_models ms xf1 = Inr xf'"
    by (auto split: sum.splits)
  from register_model_Inr[OF 1] have a: "\<not> hasattr xf (repo_name_for_model m)"
    and b: "fst ` set (attrs xf1) = insert (repo_name_for_model m) (fst ` set (attrs xf))" by auto
  from Cons.IH[OF 2] have c: "distinct (map repo_name_for_model ms)"
    and d: "\<forall>m\<in>set ms. \<not> hasattr xf1 (repo_name_for_model m)"
    and e: "fst ` set (attrs xf') = repo_name_for_model ` set ms \<union> fst ` set (attrs xf1)" by auto
  have "repo_name_for_model m \<notin> repo_name_for_model ` set ms"
    using d b by (auto simp: hasattr_iff)
  moreover have "\<forall>m\<in>set ms. \<not> hasattr xf (repo_name_for_model m)"
    using d b by (auto simp: hasattr_iff)
  ultimately show ?case using a c e b by auto
qed

lemma register_models_Inl:
  "register_models ms xf = Inl e \<Longrightarrow> \<exists>m\<in>set ms. e = duplicate_error m"
proof (induction ms arbitrary: xf)
  case Nil
  then show ?case by simp
next
  case (Cons m ms)
  show ?case
  proof (cases "register_model m xf")
    case (Inl e')
    then show ?thesis using Cons.prems register_model_Inl[OF Inl] by simp
  next
    case (Inr xf1)
    then have "register_models ms xf1 = Inl e" using Cons.prems by simp
    from Cons.IH[OF this] show ?thesis by auto
  qed
qed

lemma register_models_append:
  "register_models (ms1 @ ms2) xf =
     (case register_models ms1 xf of Inl e \<Rightarrow> Inl e | Inr xf' \<Rightarrow> register_models ms2 xf')"
  by (induction ms1 arbitrary: xf) (auto split: sum.splits)

lemma register_sheets_flat:
  "register_sheets shs xf = register_models (referenced_models shs) xf"
  by (induction shs arbitrary: xf) (auto simp: referenced_models_def register_models_append split: sum.splits)

lemma register_models_ok:
  assumes "distinct (map repo_name_for_model ms)"
    and "\<forall>m\<in>set ms. \<not> hasattr xf (repo_name_for_model m)"
    and "distinct (map class_id ms)"
    and "\<forall>m\<in>set ms. class_id m \<notin> fst ` set (repos xf)"
    and "heap xf = (\<lambda>_. [])"
  shows "register_models ms xf =
     Inr (xf\<lparr>repos := repos xf @ zip (map class_id ms) [next_addr xf..<next_addr xf + length ms],
             attrs := attrs xf @ zip (map repo_name_for_model ms) [next_addr xf..<next_addr xf + length ms],
             next_addr := next_addr xf + length ms\<rparr>)"
  using assms
proof (induction ms arbitrary: xf)
  case Nil
  then show ?case by simp
next
  case (Cons m ms)
  let ?n = "repo_name_for_model m"
  let ?a = "next_addr xf"
  let ?xf1 = "xf\<lparr>repos := repos xf @ [(class_id m, ?a)], attrs := attrs xf @ [(?n, ?a)], next_addr := ?a + 1\<rparr>"
  have nh: "\<not> hasattr xf ?n" using Cons.prems(2) by simp
  then have fresh_n: "?n \<notin> fst ` set (attrs xf)" by (simp add: hasattr_iff)
  have fresh_c: "class_id m \<notin> fst ` set (repos xf)" using Cons.prems(4) by simp
  have hp: "(heap xf)(?a := []) = heap xf" using Cons.prems(5) by auto
  have 1: "register_model m xf = Inr ?xf1"
    using nh by (simp add: register_model_def Let_def dict_set_fresh[OF fresh_n] dict_set_fresh[OF fresh_c] hp)
  have p1: "distinct (map repo_name_for_model ms)" using Cons.prems(1) by simp
  have ne: "\<forall>m'\<in>set ms. repo_name_for_model m' \<noteq> ?n"
    using Cons.prems(1) by (auto simp: image_iff)
  have p2: "\<forall>m'\<in>set ms. \<not> hasattr ?xf1 (repo_name_for_model m')"
    using Cons.prems(2) ne by (simp add: hasattr_iff)
  have p3: "distinct (map class_id ms)" using Cons.prems(3) by simp
  have ne': "\<forall>m'\<in>set ms. class_id m' \<noteq> class_id m"
    using Cons.prems(3) by (auto simp: image_iff)
  have p4: "\<forall>m'\<in>set ms. class_id m' \<notin> fst ` set (repos ?xf1)"
    using Cons.prems(4) ne' by simp
  have p5: "heap ?xf1 = (\<lambda>_. [])" using Cons.prems(5) by simp
  have up: "[?a..<?a + length (m # ms)] = ?a # [Suc ?a..<Suc ?a + length ms]"
    by (simp add: upt_rec)
  show ?case
    unfolding register_models.simps 1 sum.case Cons.IH[OF p1 p2 p3 p4 p5] up
    by simp
qed

lemma distinct_ids:
  assumes "types_consistent ms" and "distinct (map repo_name_for_model ms)"
  shows "distinct (map class_id ms)"
proof -
  have "inj_on class_id (set ms)"
    using assms(1) by (auto simp: inj_on_def types_consistent_def)
  moreover have "distinct ms" using assms(2) by (simp add: distinct_map)
  ultimately show ?thesis by (simp add: distinct_map)
qed

lemma init_ok:
  assumes "distinct (map repo_name_for_model (referenced_models shs))"
    and "\<forall>m\<in>set (referenced_models shs). repo_name_for_model m \<notin> set reserved_attrs"
    and "types_consistent (referenced_models shs)"
  shows "excel_file_init shs =
     Inr \<lparr>sheets = shs,
          repos = zip (map class_id (referenced_models shs)) [0..<length (referenced_models shs)],
          attrs = zip (map repo_name_for_model (referenced_models shs)) [0..<length (referenced_models shs)],
          heap = (\<lambda>_. []),
          next_addr = length (referenced_models shs)\<rparr>"
proof -
  let ?xf0 = "\<lparr>sheets = shs, repos = [], attrs = [], heap = (\<lambda>_. []), next_addr = 0\<rparr>"
  have 2: "\<forall>m\<in>set (referenced_models shs). \<not> hasattr ?xf0 (repo_name_for_model m)"
    using assms(2) by (simp add: hasattr_iff)
  have 3: "distinct (map class_id (referenced_models shs))" using distinct_ids[OF assms(3,1)] .
  show ?thesis
    unfolding excel_file_init_def register_sheets_flat
    by (subst register_models_ok[OF assms(1) 2 3]) simp_all
qed

lemma init_duplicate:
  assumes "\<not> distinct (map repo_name_for_model (referenced_models shs))"
  shows "\<exists>m\<in>set (referenced_models shs). excel_file_init shs = Inl (duplicate_error m)"
proof (cases "excel_file_init shs")
  case (Inl e)
  then show ?thesis using register_models_Inl[of "referenced_models shs" _ e]
    by (auto simp: excel_file_init_def register_sheets_flat)
next
  case (Inr xf)
  then have "distinct (map repo_name_for_model (referenced_models shs))"
    using register_models_Inr[of "referenced_models shs" _ xf]
    by (auto simp: excel_file_init_def register_sheets_flat)
  then show ?thesis using assms by simp
qed

lemma parse_rows_past_end:
  "max_row ws < r \<Longrightarrow> parse_rows ws m cols sc r repo = Completed repo"
  by (simp add: parse_rows.simps)

lemma parse_rows_bad_row:
  "r \<le> max_row ws \<Longrightarrow> r < 1 \<Longrightarrow> cols \<noteq> [] \<Longrightarrow> parse_rows ws m cols sc r repo = Raised cell_error repo"
  by (simp add: parse_rows.simps[of ws m cols sc r repo] read_row_bad_row)

lemma parse_rows_blank:
  assumes "1 \<le> r" and "1 \<le> sc" and "row_is_blank (row_values ws r sc (length cols))"
  shows "parse_rows ws m cols sc r repo = Completed repo"
  using assms by (simp add: parse_rows.simps[of ws m cols sc r repo] read_row_ok)

lemma parse_rows_excluded:
  assumes "1 \<le> r" and "1 \<le> sc" and "r \<le> max_row ws"
    and "\<not> row_is_blank (row_values ws r sc (length cols))"
    and "row_excluded cols (row_values ws r sc (length cols))"
  shows "parse_rows ws m cols sc r repo = parse_rows ws m cols sc (r + 1) repo"
  using assms by (simp add: parse_rows.simps[of ws m cols sc r repo] read_row_ok)

lemma parse_rows_record:
  assumes "1 \<le> r" and "1 \<le> sc" and "r \<le> max_row ws"
    and "\<not> row_is_blank (row_values ws r sc (length cols))"
    and "\<not> row_excluded cols (row_values ws r sc (length cols))"
  shows "parse_rows ws m cols sc r repo =
     (case make_record m cols (row_values ws r sc (length cols)) of
        Inl e \<Rightarrow> Raised e repo
      | Inr ob \<Rightarrow> parse_rows ws m cols sc (r + 1) (repo @ [ob]))"
  using assms by (simp add: parse_rows.simps[of ws m cols sc r repo] read_row_ok)

lemma block_rows_step:
  "r0 < stop \<Longrightarrow> block_rows ws cols sc r0 stop =
     row_values ws r0 sc (length cols) # block_rows ws cols sc (r0 + 1) stop"
  by (simp add: block_rows_def upto.simps[of r0 "stop - 1"])

lemma block_rows_empty: "stop \<le> r0 \<Longrightarrow> block_rows ws cols sc r0 stop = []"
  by (simp add: block_rows_def)

lemma block_rows_length: "r0 \<le> stop \<Longrightarrow> length (block_rows ws cols sc r0 stop) = nat (stop - r0)"
  by (simp add: block_rows_def)

lemma parse_rows_span:
  assumes "1 \<le> r0" and "1 \<le> sc" and "r0 \<le> stop" and "stop \<le> max_row ws + 1"
    and "list_all (\<lambda>row. \<not> row_is_blank row) (block_rows ws cols sc r0 stop)"
    and "stop \<le> max_row ws \<longrightarrow> row_is_blank (row_values ws stop sc (length cols))"
  shows "parse_rows ws m cols sc r0 repo =
     append_records m cols (filter (\<lambda>row. \<not> row_excluded cols row) (block_rows ws cols sc r0 stop)) repo"
  using assms(1,3,5)
proof (induction "nat (stop - r0)" arbitrary: r0 repo)
  case 0
  then have eq: "r0 = stop" by simp
  show ?case
  proof (cases "stop \<le> max_row ws")
    case True
    then show ?thesis using 0 eq assms(2,6) by (simp add: parse_rows_blank block_rows_empty)
  next
    case False
    then show ?thesis using eq by (simp add: parse_rows_past_end block_rows_empty)
  qed
next
  case (Suc n)
  then have lt: "r0 < stop" and n: "n = nat (stop - (r0 + 1))" by auto
  then have le: "r0 \<le> max_row ws" using assms(4) by simp
  note split = block_rows_step[OF lt, of ws cols sc]
  have nb: "\<not> row_is_blank (row_values ws r0 sc (length cols))"
    and rest: "list_all (\<lambda>row. \<not> row_is_blank row) (block_rows ws cols sc (r0 + 1) stop)"
    using Suc.prems(3) split by simp_all
  have r1: "1 \<le> r0 + 1" and r2: "r0 + 1 \<le> stop" using Suc.prems(1) lt by simp_all
  have ih: "\<And>repo'. parse_rows ws m cols sc (r0 + 1) repo' =
     append_records m cols (filter (\<lambda>row. \<not> row_excluded cols row) (block_rows ws cols sc (r0 + 1) stop)) repo'"
    using Suc.hyps(1)[OF n r1 r2 rest] .
  show ?case
  proof (cases "row_excluded cols (row_values ws r0 sc (length cols))")
    case True
    then show ?thesis
      using parse_rows_excluded[OF Suc.prems(1) assms(2) le nb True] ih split by simp
  next
    case False
    then show ?thesis
      using parse_rows_record[OF Suc.prems(1) assms(2) le nb False] ih split
      by (simp split: sum.splits)
  qed
qed

lemma append_records_all_ok:
  "list_all (\<lambda>row. \<not> isl (make_record m cols row)) rows \<Longrightarrow>
   append_records m cols rows repo = Completed (repo @ map (\<lambda>row. projr (make_record m cols row)) rows)"
proof (induction rows arbitrary: repo)
  case Nil
  then show ?case by simp
next
  case (Cons row rows)
  then obtain ob where ob: "make_record m cols row = Inr ob" by (cases "make_record m cols row") auto
  then show ?case using Cons by simp
qed

lemma col_excludes_iff:
  "col_excludes col raw \<longleftrightarrow> (\<exists>ex. excludes (spec col) = Some ex \<and> (\<exists>x\<in>set ex. py_eq raw x))"
proof (cases "excludes (spec col)")
  case None
  then show ?thesis by (simp add: col_excludes_def)
next
  case (Some ex)
  then show ?thesis by (cases ex) (auto simp: col_excludes_def list_ex_iff)
qed

lemma row_excluded_iff:
  "row_excluded cols row \<longleftrightarrow>
     (\<exists>i<length cols. \<exists>ex. excludes (spec (cols ! i)) = Some ex \<and> (\<exists>x\<in>set ex. py_eq (row ! i) x))"
proof -
  have "row_excluded cols row \<longleftrightarrow> (\<exists>i<length cols. col_excludes (cols ! i) (row ! i))"
    by (auto simp: row_excluded_def list_ex_iff in_set_enumerate_eq)
  then show ?thesis by (simp only: col_excludes_iff)
qed

lemma find_header_located:
  assumes "find_header ws sp m = Inr (Some (hr, sc))"
  shows "hr = header_row sp \<and> 1 \<le> header_row sp \<and> 1 \<le> sc \<and> get_model_columns m \<noteq> []"
proof -
  let ?e = "expected_headers m"
  let ?cs = "[1..max_column ws - int (length ?e) + 1]"
  have ne: "?e \<noteq> []" using assms by (auto simp: find_header_def Let_def split: if_splits)
  then have fh: "find_header_loop ws (header_row sp) ?e ?cs = Inr (Some (hr, sc))"
    using assms by (simp add: find_header_def Let_def)
  have cs: "?cs \<noteq> []" using fh by auto
  have row: "1 \<le> header_row sp"
  proof (rule ccontr)
    assume "\<not> 1 \<le> header_row sp"
    then have "find_header_loop ws (header_row sp) ?e ?cs = Inl cell_error"
      using ne cs by (intro find_header_loop_bad_row) simp_all
    then show False using fh by simp
  qed
  have "hr = header_row sp \<and> 1 \<le> sc"
    using fh find_header_loop_upto[OF row, of 1 ws ?e "max_column ws - int (length ?e) + 1" hr sc]
    by simp
  then show ?thesis using row ne by (auto simp: expected_headers_def)
qed

lemma block_rows_all:
  "list_all P (block_rows ws cols sc r0 stop) \<longleftrightarrow>
     (\<forall>r. r0 \<le> r \<and> r < stop \<longrightarrow> P (row_values ws r sc (length cols)))"
  by (auto simp: block_rows_def list_all_iff)

lemma parse_rows_ends_block:
  assumes "1 \<le> r0" and "1 \<le> sc" and "ends_block ws cols sc r0 stop"
  shows "parse_rows ws m cols sc r0 repo =
     append_records m cols (filter (\<lambda>row. \<not> row_excluded cols row) (block_rows ws cols sc r0 stop)) repo"
proof (cases "stop \<le> max_row ws + 1")
  case True
  then show ?thesis
    using assms by (intro parse_rows_span) (auto simp: ends_block_def split: if_splits)
next
  case False
  then have "stop = r0" and "max_row ws < r0"
    using assms(3) by (auto simp: ends_block_def split: if_splits)
  then show ?thesis by (simp add: parse_rows_past_end block_rows_empty)
qed

lemma ends_block_unique:
  assumes "ends_block ws cols sc r0 stop" and "ends_block ws cols sc r0 stop'"
  shows "stop = stop'"
proof -
  have less: False if a: "ends_block ws cols sc r0 s" and b: "ends_block ws cols sc r0 s'" and lt: "s < s'"
    for s s'
  proof (cases "s \<le> max_row ws")
    case True
    then have "row_is_blank (row_values ws s sc (length cols))" using a by (simp add: ends_block_def)
    moreover have "\<not> row_is_blank (row_values ws s sc (length cols))"
      using a b lt by (simp add: ends_block_def block_rows_all)
    ultimately show False by simp
  next
    case False
    then have "s = max r0 (max_row ws + 1)" using a by (simp add: ends_block_def)
    moreover have "s' = max r0 (max_row ws + 1)" using b lt False by (simp add: ends_block_def)
    ultimately show False using lt by simp
  qed
  show ?thesis using less[OF assms] less[OF assms(2,1)] by (cases stop stop' rule: linorder_cases) auto
qed

lemma ends_block_exists: "\<exists>stop. ends_block ws cols sc r0 stop"
proof (induction "nat (max_row ws + 1 - r0)" arbitrary: r0)
  case 0
  then have "ends_block ws cols sc r0 r0" by (simp add: ends_block_def block_rows_empty)
  then show ?case ..
next
  case (Suc n)
  then have le: "r0 \<le> max_row ws" and n: "n = nat (max_row ws + 1 - (r0 + 1))" by auto
  show ?case
  proof (cases "row_is_blank (row_values ws r0 sc (length cols))")
    case True
    then have "ends_block ws cols sc r0 r0" using le by (simp add: ends_block_def block_rows_empty)
    then show ?thesis ..
  next
    case False
    obtain stop where s: "ends_block ws cols sc (r0 + 1) stop" using Suc.hyps(1)[OF n] ..
    then have lt: "r0 < stop" by (simp add: ends_block_def)
    have "ends_block ws cols sc r0 stop"
      using s False le lt by (auto simp: ends_block_def block_rows_step[OF lt] split: if_splits)
    then show ?thesis ..
  qed
qed

lemmas str_simps = py_strip_def py_isspace_def py_lower_def to_lower_def upper_chars_def lower_chars_def
  latin_upper_chars_def latin_lower_chars_def
  is_upper_def is_lower_def is_digit_def digit_chars_def digit_val_def

lemmas int_simps = int_of_string_def int_isspace_def in_number_def digits_value_def

lemmas schema_simps = car_model_def plant_model_def note_model_def part_model_def cars_sheet_def
  notes_sheet_def get_model_columns_def List.map_filter_def text_column_def int_column_def

lemmas sheet_simps = data_sheet_def cars_only_sheet_def parts_sheet_def grid_sheet_def grid_cell_def
  read_row_def cell_read_def row_values_def

lemmas locator_simps = find_header_def expected_headers_def opt_str_def Let_def upto.simps

lemma car_columns:
  "get_model_columns car_model =
     [\<lparr>spec = text_column (Some ''Make'') None PNone True True, name = ''make''\<rparr>,
      \<lparr>spec = text_column (Some ''Model'') None PNone True True, name = ''model''\<rparr>,
      \<lparr>spec = int_column (Some ''Year'') None PNone True, name = ''year''\<rparr>]"
  by (simp add: car_model_def get_model_columns_def List.map_filter_def)

lemma plant_columns:
  "get_model_columns plant_model =
     [\<lparr>spec = text_column (Some ''Factory Name'') None PNone True True, name = ''name''\<rparr>,
      \<lparr>spec = text_column (Some ''Location'') None PNone True False, name = ''location''\<rparr>]"
  by (simp add: plant_model_def get_model_columns_def List.map_filter_def)

lemma note_columns: "get_model_columns note_model = []"
  by (simp add: note_model_def get_model_columns_def List.map_filter_def)

lemma part_columns:
  "get_model_columns part_model =
     [\<lparr>spec = (int_column (Some ''Code'') None PNone False)\<lparr>excludes := Some [PStr ''n/a'']\<rparr>, name = ''code''\<rparr>,
      \<lparr>spec = text_column (Some ''Label'') None PNone True False, name = ''label''\<rparr>]"
  by (simp add: part_model_def get_model_columns_def List.map_filter_def)

lemma class_ids:
  "class_id car_model = 0" "class_id plant_model = 1" "class_id note_model = 2"
  "class_id part_model = 3" "class_id cars_class_model = 4"
  by (simp_all add: car_model_def plant_model_def note_model_def part_model_def cars_class_model_def)

lemma no_hooks:
  "validate car_model = None" "validate plant_model = None" "validate part_model = None"
  by (simp_all add: car_model_def plant_model_def part_model_def)

lemma repo_names:
  "repo_name_for_model car_model = ''cars''"
  "repo_name_for_model plant_model = ''manufacturing_plants''"
  "repo_name_for_model note_model = ''notes''"
  "repo_name_for_model cars_class_model = ''cars''"
  by (simp_all add: repo_name_for_model_def pluralize_def endswith_s_def camel_to_snake_def
        car_model_def plant_model_def note_model_def cars_class_model_def str_simps)

lemma cars_sheet_rows:
  "header_row cars_sheet = 2" "data_start_row cars_sheet = 3" "sheet_name cars_sheet = ''Cars''"
  "models cars_sheet = [car_model, plant_model]"
  "header_row notes_sheet = 2" "data_start_row notes_sheet = 3" "sheet_name notes_sheet = ''Cars''"
  "models notes_sheet = [note_model, car_model]"
  by (simp_all add: cars_sheet_def notes_sheet_def)

lemma data_sheet_size: "max_row data_sheet = 6" "max_column data_sheet = 7"
  by (simp_all add: data_sheet_def grid_sheet_def)

lemma find_cars: "find_header data_sheet cars_sheet car_model = Inr (Some (2, 1))"
  by (simp add: locator_simps schema_simps sheet_simps str_simps)

lemma find_cars_notes: "find_header data_sheet notes_sheet car_model = Inr (Some (2, 1))"
  by (simp add: locator_simps schema_simps sheet_simps str_simps)

lemma find_plants: "find_header data_sheet cars_sheet plant_model = Inr (Some (2, 6))"
  by (simp add: locator_simps schema_simps sheet_simps str_simps)

lemma find_no_plants: "find_header cars_only_sheet cars_sheet plant_model = Inr None"
  by (simp add: locator_simps schema_simps sheet_simps str_simps)

lemma make_record_car_1:
  "make_record car_model (get_model_columns car_model) [PStr ''Toyota'', PStr ''Camry'', PInt 2020]
     = Inr [(''make'', PStr ''Toyota''), (''model'', PStr ''Camry''), (''year'', PInt 2020)]"
  by (simp add: car_columns no_hooks make_record_def instantiate_model_def column_set_def column_validate_def
        text_column_def int_column_def text_parse_def int_parse_def no_validator_def str_simps)

lemma make_record_car_2:
  "make_record car_model (get_model_columns car_model) [PStr ''Honda'', PStr ''Civic'', PStr ''2019'']
     = Inr [(''make'', PStr ''Honda''), (''model'', PStr ''Civic''), (''year'', PInt 2019)]"
  by (simp add: car_columns no_hooks make_record_def instantiate_model_def column_set_def column_validate_def
        text_column_def int_column_def text_parse_def int_parse_def no_validator_def str_simps int_simps)

lemma car_block_rows:
  "block_rows data_sheet (get_model_columns car_model) 1 3 5 =
     [[PStr ''Toyota'', PStr ''Camry'', PInt 2020], [PStr ''Honda'', PStr ''Civic'', PStr ''2019'']]"
  by (simp add: block_rows_def car_columns sheet_simps upto.simps)

lemma car_row_5_blank: "row_is_blank (row_values data_sheet 5 1 (length (get_model_columns car_model)))"
  by (simp add: car_columns sheet_simps row_is_blank_def)

lemma car_row_6_not_blank: "\<not> row_is_blank (row_values data_sheet 6 1 (length (get_model_columns car_model)))"
  by (simp add: car_columns sheet_simps row_is_blank_def str_simps)

lemma car_rows_not_excluded:
  "\<not> row_excluded (get_model_columns car_model) row"
  by (simp add: car_columns row_excluded_def enumerate_eq_zip upt_rec col_excludes_def
        text_column_def int_column_def)

lemma car_rows_not_blank:
  "list_all (\<lambda>row. \<not> row_is_blank row) (block_rows data_sheet (get_model_columns car_model) 1 3 5)"
  unfolding car_block_rows by (simp add: row_is_blank_def str_simps)

lemma parse_car_rows:
  "parse_rows data_sheet car_model (get_model_columns car_model) 1 3 repo = Completed (repo @ car_records)"
proof -
  have "parse_rows data_sheet car_model (get_model_columns car_model) 1 3 repo =
      append_records car_model (get_model_columns car_model)
        (filter (\<lambda>row. \<not> row_excluded (get_model_columns car_model) row)
           (block_rows data_sheet (get_model_columns car_model) 1 3 5)) repo"
    using car_rows_not_blank car_row_5_blank
    by (intro parse_rows_span) (simp_all add: data_sheet_size)
  then show ?thesis
    unfolding car_block_rows
    by (simp add: car_rows_not_excluded make_record_car_1 make_record_car_2 car_records_def)
qed

lemma plant_block_rows:
  "block_rows data_sheet (get_model_columns plant_model) 6 3 5 =
     [[PStr ''Plant 1'', PStr ''NJ''], [PStr ''Plant 2'', PStr ''PA'']]"
  by (simp add: block_rows_def plant_columns sheet_simps upto.simps)

lemma plant_rows_not_excluded:
  "\<not> row_excluded (get_model_columns plant_model) row"
  by (simp add: plant_columns row_excluded_def enumerate_eq_zip upt_rec col_excludes_def text_column_def)

lemma make_record_plants:
  "make_record plant_model (get_model_columns plant_model) [PStr ''Plant 1'', PStr ''NJ'']
     = Inr [(''name'', PStr ''Plant 1''), (''location'', PStr ''NJ'')]"
  "make_record plant_model (get_model_columns plant_model) [PStr ''Plant 2'', PStr ''PA'']
     = Inr [(''name'', PStr ''Plant 2''), (''location'', PStr ''PA'')]"
  by (simp_all add: plant_columns no_hooks make_record_def instantiate_model_def column_set_def
        column_validate_def text_column_def text_parse_def no_validator_def str_simps)

lemma parse_plant_rows:
  "parse_rows data_sheet plant_model (get_model_columns plant_model) 6 3 repo = Completed (repo @ plant_records)"
proof -
  have nb: "list_all (\<lambda>row. \<not> row_is_blank row) (block_rows data_sheet (get_model_columns plant_model) 6 3 5)"
    unfolding plant_block_rows by (simp add: row_is_blank_def str_simps)
  have b: "row_is_blank (row_values data_sheet 5 6 (length (get_model_columns plant_model)))"
    by (simp add: plant_columns sheet_simps row_is_blank_def)
  have "parse_rows data_sheet plant_model (get_model_columns plant_model) 6 3 repo =
      append_records plant_model (get_model_columns plant_model)
        (filter (\<lambda>row. \<not> row_excluded (get_model_columns plant_model) row)
           (block_rows data_sheet (get_model_columns plant_model) 6 3 5)) repo"
    using nb b by (intro parse_rows_span) (simp_all add: data_sheet_size)
  then show ?thesis
    unfolding plant_block_rows
    by (simp add: plant_rows_not_excluded make_record_plants plant_records_def)
qed

lemma parse_model_cars:
  "map_of (repos xf) 0 = Some a \<Longrightarrow>
   parse_model data_sheet cars_sheet car_model xf = Completed (xf\<lparr>heap := (heap xf)(a := heap xf a @ car_records)\<rparr>)"
  by (simp add: parse_model_def find_cars class_ids cars_sheet_rows parse_car_rows)

lemma parse_model_cars_notes:
  "map_of (repos xf) 0 = Some a \<Longrightarrow>
   parse_model data_sheet notes_sheet car_model xf = Completed (xf\<lparr>heap := (heap xf)(a := heap xf a @ car_records)\<rparr>)"
  by (simp add: parse_model_def find_cars_notes class_ids cars_sheet_rows parse_car_rows)

lemma parse_model_plants:
  "map_of (repos xf) 1 = Some a \<Longrightarrow>
   parse_model data_sheet cars_sheet plant_model xf = Completed (xf\<lparr>heap := (heap xf)(a := heap xf a @ plant_records)\<rparr>)"
  by (simp add: parse_model_def find_plants class_ids cars_sheet_rows parse_plant_rows)

lemma load_data_sheet: "load_data [(''Cars'', data_sheet)] car_file = Completed loaded_file"
proof -
  have c: "clear_repos car_file = car_file"
    by (simp add: clear_repos_def car_file_def fun_eq_iff)
  have s: "sheets car_file = [cars_sheet]" by (simp add: car_file_def)
  have 1: "parse_model data_sheet cars_sheet car_model car_file
      = Completed (car_file\<lparr>heap := (heap car_file)(0 := heap car_file 0 @ car_records)\<rparr>)"
    by (rule parse_model_cars) (simp add: car_file_def)
  have 2: "parse_model data_sheet cars_sheet plant_model (car_file\<lparr>heap := (heap car_file)(0 := heap car_file 0 @ car_records)\<rparr>)
      = Completed loaded_file"
    by (subst parse_model_plants[where a = 1]) (simp_all add: car_file_def loaded_file_def fun_eq_iff)
  show ?thesis
    by (simp add: load_data_def c s cars_sheet_rows parse_sheet_def 1 2)
qed

lemma cars_only_size: "max_row cars_only_sheet = 3" "max_column cars_only_sheet = 3"
  by (simp_all add: cars_only_sheet_def grid_sheet_def)

lemma find_cars_only: "find_header cars_only_sheet cars_sheet car_model = Inr (Some (2, 1))"
  by (simp add: locator_simps schema_simps sheet_simps str_simps)

lemma parse_cars_only_rows:
  "parse_rows cars_only_sheet car_model (get_model_columns car_model) 1 3 repo
     = Completed (repo @ [[(''make'', PStr ''Toyota''), (''model'', PStr ''Camry''), (''year'', PInt 2020)]])"
proof -
  have rows: "block_rows cars_only_sheet (get_model_columns car_model) 1 3 4 =
     [[PStr ''Toyota'', PStr ''Camry'', PInt 2020]]"
    by (simp add: block_rows_def car_columns sheet_simps upto.simps)
  have nb: "list_all (\<lambda>row. \<not> row_is_blank row) (block_rows cars_only_sheet (get_model_columns car_model) 1 3 4)"
    unfolding rows by (simp add: row_is_blank_def str_simps)
  have "parse_rows cars_only_sheet car_model (get_model_columns car_model) 1 3 repo =
      append_records car_model (get_model_columns car_model)
        (filter (\<lambda>row. \<not> row_excluded (get_model_columns car_model) row)
           (block_rows cars_only_sheet (get_model_columns car_model) 1 3 4)) repo"
    using nb by (intro parse_rows_span) (simp_all add: cars_only_size)
  then show ?thesis
    unfolding rows by (simp add: car_rows_not_excluded make_record_car_1)
qed

lemma parse_model_cars_only:
  "map_of (repos xf) 0 = Some a \<Longrightarrow>
   parse_model cars_only_sheet cars_sheet car_model xf
     = Completed (xf\<lparr>heap := (heap xf)(a := heap xf a
         @ [[(''make'', PStr ''Toyota''), (''model'', PStr ''Camry''), (''year'', PInt 2020)]])\<rparr>)"
  by (simp add: parse_model_def find_cars_only class_ids cars_sheet_rows parse_cars_only_rows)

lemma parts_spec_rows:
  "header_row parts_spec = 2" "data_start_row parts_spec = 3" "models parts_spec = [part_model]"
  "sheet_name parts_spec = ''Parts''"
  by (simp_all add: parts_spec_def)

lemma parts_sheet_size: "max_row parts_sheet = 5" "max_column parts_sheet = 2"
  by (simp_all add: parts_sheet_def grid_sheet_def)

lemma find_parts: "find_header parts_sheet parts_spec part_model = Inr (Some (2, 1))"
  by (simp add: locator_simps schema_simps parts_spec_def sheet_simps str_simps)

lemma part_block_rows:
  "block_rows parts_sheet (get_model_columns part_model) 1 3 6 =
     [[PInt 7, PStr ''bolt''], [PStr ''n/a'', PStr ''retired''], [PInt 9, PStr ''nut'']]"
  "block_rows parts_sheet (get_model_columns part_model) 1 3 4 = [[PInt 7, PStr ''bolt'']]"
  "block_rows parts_sheet (get_model_columns part_model) 1 5 6 = [[PInt 9, PStr ''nut'']]"
  "row_values parts_sheet 4 1 (length (get_model_columns part_model)) = [PStr ''n/a'', PStr ''retired'']"
  by (simp_all add: block_rows_def part_columns sheet_simps upto.simps)

lemma part_rows_excluded:
  "\<not> row_excluded (get_model_columns part_model) [PInt 7, PStr ''bolt'']"
  "row_excluded (get_model_columns part_model) [PStr ''n/a'', PStr ''retired'']"
  "\<not> row_excluded (get_model_columns part_model) [PInt 9, PStr ''nut'']"
  by (simp_all add: part_columns row_excluded_def enumerate_eq_zip upt_rec col_excludes_def
        text_column_def int_column_def)

lemma make_record_parts:
  "make_record part_model (get_model_columns part_model) [PInt 7, PStr ''bolt'']
     = Inr [(''code'', PInt 7), (''label'', PStr ''bolt'')]"
  "make_record part_model (get_model_columns part_model) [PInt 9, PStr ''nut'']
     = Inr [(''code'', PInt 9), (''label'', PStr ''nut'')]"
  by (simp_all add: part_columns no_hooks make_record_def instantiate_model_def column_set_def
        column_validate_def text_column_def int_column_def text_parse_def int_parse_def
        no_validator_def str_simps)

lemma parts_ends_block: "ends_block parts_sheet (get_model_columns part_model) 1 3 6"
  unfolding ends_block_def part_block_rows by (simp add: parts_sheet_size row_is_blank_def str_simps)

section \<open>The claims\<close>

text \<open>
  C10. A record type without columns is never located: on every sheet, whatever its header
  row, the locator returns "not found" and reads no cell. Such a type never makes a load
  fail and never yields a record: its turn in \<open>_parse_sheet\<close> completes and leaves the
  orchestrator as it was, the outcome of parsing a sheet and of \<open>load_data\<close> is the same as
  if the type were not listed in the sheet specifications, \<open>load_data\<close> completes with all
  repositories empty when no other type is listed and every sheet is present, and a
  repository that only holds such types is empty after \<open>load_data\<close>.
\<close>

theorem empty_schema_never_located:
  assumes "get_model_columns m = []"
  shows "find_header ws sp m = Inr None
     \<and> parse_model ws sp m xf = Completed xf
     \<and> parse_models ws sp (pre @ m # post) xf = parse_models ws sp (pre @ post) xf
     \<and> load_data wb xf = load_sheets wb (map (keep_models (\<lambda>m'. m' \<noteq> m)) (sheets xf)) (clear_repos xf)
     \<and> (all_sheets_present wb (sheets xf) \<and> (\<forall>sp\<in>set (sheets xf). set (models sp) \<subseteq> {m}) \<longrightarrow>
          load_data wb xf = Completed (clear_repos xf))
     \<and> (repo_of xf m = Some a \<and> holds_empty_schemas xf a \<longrightarrow>
          heap (state_of (load_data wb xf)) a = [])"
proof (intro conjI impI)
  show f: "find_header ws sp m = Inr None" using assms by (rule find_header_no_columns)
  show "parse_model ws sp m xf = Completed xf" using f by (rule parse_model_not_found)
  show "parse_models ws sp (pre @ m # post) xf = parse_models ws sp (pre @ post) xf"
    using f by (rule parse_models_drop)
  show "load_data wb xf = load_sheets wb (map (keep_models (\<lambda>m'. m' \<noteq> m)) (sheets xf)) (clear_repos xf)"
    using load_sheets_drop_type[OF assms] by (simp add: load_data_def)
next
  assume h: "all_sheets_present wb (sheets xf) \<and> (\<forall>sp\<in>set (sheets xf). set (models sp) \<subseteq> {m})"
  have "\<forall>sp\<in>set (sheets xf). \<forall>ws. map_of wb (sheet_name sp) = Some ws \<longrightarrow>
           (\<forall>m'\<in>set (models sp). find_header ws sp m' = Inr None)"
  proof (intro ballI allI impI)
    fix sp ws m' assume "sp \<in> set (sheets xf)" and "m' \<in> set (models sp)"
    then have "m' = m" using h by blast
    then show "find_header ws sp m' = Inr None" using assms by (simp add: find_header_no_columns)
  qed
  then show "load_data wb xf = Completed (clear_repos xf)"
    using h load_sheets_only_unlocated by (simp add: load_data_def)
next
  assume h: "repo_of xf m = Some a \<and> holds_empty_schemas xf a"
  have "located_nowhere wb xf a"
    unfolding located_nowhere_def list_all_iff
  proof (intro ballI)
    fix sp' m' assume "sp' \<in> set (sheets xf)" and "m' \<in> set (models sp')"
    then have "repo_of xf m' \<noteq> Some a \<or> get_model_columns m' = []"
      using h by (auto simp: holds_empty_schemas_def list_all_iff)
    then show "repo_of xf m' \<noteq> Some a \<or>
        (case map_of wb (sheet_name sp') of None \<Rightarrow> True | Some ws \<Rightarrow> find_header ws sp' m' = Inr None)"
      by (auto simp: find_header_no_columns split: option.splits)
  qed
  then show "heap (state_of (load_data wb xf)) a = []"
    using h load_data_not_located by blast
qed

theorem empty_schema_never_located_witness:
  "find_header data_sheet notes_sheet note_model = Inr None
   \<and> parse_model data_sheet notes_sheet note_model note_file = Completed note_file
   \<and> heap note_file 0 = [[(''stale'', PInt 1)]]
   \<and> load_data [(''Cars'', data_sheet)] note_file
       = Completed (note_file\<lparr>heap := (heap (clear_repos note_file))(1 := car_records)\<rparr>)
   \<and> heap (state_of (load_data [(''Cars'', data_sheet)] note_file)) 0 = []"
proof -
  note inst = empty_schema_never_located[OF note_columns, where ws = data_sheet and sp = notes_sheet
                and xf = note_file and wb = "[(''Cars'', data_sheet)]" and a = 0]
  have r: "repo_of note_file note_model = Some 0"
    by (simp add: repo_of_def note_file_def class_ids)
  have r': "repo_of note_file car_model \<noteq> Some 0"
    by (simp add: repo_of_def note_file_def class_ids)
  have e: "holds_empty_schemas note_file 0"
    using r' by (simp add: holds_empty_schemas_def note_file_def cars_sheet_rows note_columns)
  have ne: "car_model \<noteq> note_model"
    using class_ids by (metis zero_neq_numeral)
  have k: "map (keep_models (\<lambda>m'. m' \<noteq> note_model)) (sheets note_file) = [notes_sheet\<lparr>models := [car_model]\<rparr>]"
    using ne by (simp add: note_file_def keep_models_def cars_sheet_rows)
  have c: "map_of (repos (clear_repos note_file)) 0 = Some 1"
    by (simp add: clear_repos_def note_file_def)
  have c': "heap (clear_repos note_file) 1 @ car_records = car_records"
    by (simp add: clear_repos_def note_file_def)
  have p: "parse_model data_sheet notes_sheet car_model (clear_repos note_file)
      = Completed (clear_repos note_file\<lparr>heap := (heap (clear_repos note_file))(1 := car_records)\<rparr>)"
    using parse_model_cars_notes[OF c] c' by simp
  have cf: "clear_repos note_file\<lparr>heap := (heap (clear_repos note_file))(1 := car_records)\<rparr>
      = note_file\<lparr>heap := (heap (clear_repos note_file))(1 := car_records)\<rparr>"
    by (simp add: clear_repos_def)
  from inst have "load_data [(''Cars'', data_sheet)] note_file
       = load_sheets [(''Cars'', data_sheet)]
           (map (keep_models (\<lambda>m'. m' \<noteq> note_model)) (sheets note_file)) (clear_repos note_file)"
    by blast
  then have "load_data [(''Cars'', data_sheet)] note_file
       = load_sheets [(''Cars'', data_sheet)] [notes_sheet\<lparr>models := [car_model]\<rparr>] (clear_repos note_file)"
    by (simp only: k)
  then have l: "load_data [(''Cars'', data_sheet)] note_file
       = Completed (note_file\<lparr>heap := (heap (clear_repos note_file))(1 := car_records)\<rparr>)"
    using p cf by (simp add: cars_sheet_rows parse_sheet_def parse_model_models_update)
  from inst r e have z: "heap (state_of (load_data [(''Cars'', data_sheet)] note_file)) 0 = []"
    by blast
  from inst have f: "find_header data_sheet notes_sheet note_model = Inr None"
    and pm: "parse_model data_sheet notes_sheet note_model note_file = Completed note_file"
    by blast+
  have s: "heap note_file 0 = [[(''stale'', PInt 1)]]" by (simp add: note_file_def)
  show ?thesis by (intro conjI) (rule f pm s l z)+
qed

lemma find_header_rows_ok:
  assumes "get_model_columns m \<noteq> []" and "1 \<le> header_row sp"
  shows "find_header ws sp m =
           find_header_loop ws (header_row sp) (expected_headers m)
             [1..max_column ws - int (length (expected_headers m)) + 1]"
    and "\<And>c. is_candidate ws m c \<longleftrightarrow> 1 \<le> c \<and> c \<le> max_column ws - int (length (expected_headers m)) + 1"
    and "\<forall>c\<in>set [1..max_column ws - int (length (expected_headers m)) + 1]. 1 \<le> c"
  using assms by (auto simp: find_header_def Let_def expected_headers_def is_candidate_def)

text \<open>
  C5 (amended). For every sheet and every record type with at least one column, on a header
  row numbered from 1, the locator never raises and returns the least start column,
  counted from 1, at which the width-many normalised cells of the header row equal the
  expected labels, among the start columns that leave room for the block; it returns
  "not found" exactly when no such column matches, in particular when the sheet has fewer
  columns than the block is wide. When a block is not found, the type's turn in
  \<open>_parse_sheet\<close> completes and leaves the orchestrator as it was; parsing the sheet and
  \<open>load_data\<close> have the outcome they would have if the unlocated types were not listed in
  the sheet specifications, so \<open>load_data\<close> completes with all repositories empty when
  every sheet is present and no type is located, and a repository whose types are located
  nowhere is empty after \<open>load_data\<close>.
\<close>

theorem header_locator_first_match:
  "(get_model_columns m \<noteq> [] \<and> 1 \<le> header_row sp \<longrightarrow>
      (\<forall>e. find_header ws sp m \<noteq> Inl e)
      \<and> (find_header ws sp m = Inr None \<longleftrightarrow> (\<forall>c. is_candidate ws m c \<longrightarrow> \<not> header_matches ws sp m c))
      \<and> (\<forall>r c. find_header ws sp m = Inr (Some (r, c)) \<longleftrightarrow>
            r = header_row sp \<and> is_candidate ws m c \<and> header_matches ws sp m c
            \<and> (\<forall>c'. 1 \<le> c' \<and> c' < c \<longrightarrow> \<not> header_matches ws sp m c'))
      \<and> (max_column ws < int (length (get_model_columns m)) \<longrightarrow> find_header ws sp m = Inr None))
   \<and> (find_header ws sp m = Inr None \<longrightarrow>
        parse_model ws sp m xf = Completed xf
        \<and> parse_models ws sp (pre @ m # post) xf = parse_models ws sp (pre @ post) xf)
   \<and> load_data wb xf = load_sheets wb (map (located_only wb) (sheets xf)) (clear_repos xf)
   \<and> (all_sheets_present wb (sheets xf) \<and> (\<forall>s\<in>set (sheets xf). models (located_only wb s) = []) \<longrightarrow>
        load_data wb xf = Completed (clear_repos xf))
   \<and> (repo_of xf m = Some a \<and> located_nowhere wb xf a \<longrightarrow> heap (state_of (load_data wb xf)) a = [])"
proof (intro conjI impI allI)
  assume h: "get_model_columns m \<noteq> [] \<and> 1 \<le> header_row sp"
  then have ne: "get_model_columns m \<noteq> []" and row: "1 \<le> header_row sp" by simp_all
  note fh = find_header_rows_ok(1)[OF ne row, of ws]
  note cand = find_header_rows_ok(2)[OF ne row, of ws]
  note pos = find_header_rows_ok(3)[OF ne row, of ws]
  fix e
  show "find_header ws sp m \<noteq> Inl e"
    unfolding fh using find_header_loop_not_raised[OF row pos] .
next
  assume h: "get_model_columns m \<noteq> [] \<and> 1 \<le> header_row sp"
  then have ne: "get_model_columns m \<noteq> []" and row: "1 \<le> header_row sp" by simp_all
  note fh = find_header_rows_ok(1)[OF ne row, of ws]
  note cand = find_header_rows_ok(2)[OF ne row, of ws]
  note pos = find_header_rows_ok(3)[OF ne row, of ws]
  show "find_header ws sp m = Inr None \<longleftrightarrow> (\<forall>c. is_candidate ws m c \<longrightarrow> \<not> header_matches ws sp m c)"
    unfolding fh find_header_loop_None_iff[OF row pos] cand header_matches_def by auto
next
  fix r c
  assume h: "get_model_columns m \<noteq> [] \<and> 1 \<le> header_row sp"
  then have ne: "get_model_columns m \<noteq> []" and row: "1 \<le> header_row sp" by simp_all
  note fh = find_header_rows_ok(1)[OF ne row, of ws]
  note cand = find_header_rows_ok(2)[OF ne row, of ws]
  have one: "(1::int) \<le> 1" by simp
  show "find_header ws sp m = Inr (Some (r, c)) \<longleftrightarrow>
            r = header_row sp \<and> is_candidate ws m c \<and> header_matches ws sp m c
            \<and> (\<forall>c'. 1 \<le> c' \<and> c' < c \<longrightarrow> \<not> header_matches ws sp m c')"
    unfolding fh find_header_loop_upto[OF row one] cand header_matches_def by auto
next
  assume h: "get_model_columns m \<noteq> [] \<and> 1 \<le> header_row sp"
    and narrow: "max_column ws < int (length (get_model_columns m))"
  then have ne: "get_model_columns m \<noteq> []" and row: "1 \<le> header_row sp" by simp_all
  note fh = find_header_rows_ok(1)[OF ne row, of ws]
  show "find_header ws sp m = Inr None"
    unfolding fh using narrow by (simp add: expected_headers_def)
next
  assume "find_header ws sp m = Inr None"
  then show "parse_model ws sp m xf = Completed xf"
    and "parse_models ws sp (pre @ m # post) xf = parse_models ws sp (pre @ post) xf"
    by (rule parse_model_not_found, rule parse_models_drop)
next
  show "load_data wb xf = load_sheets wb (map (located_only wb) (sheets xf)) (clear_repos xf)"
    by (simp add: load_data_def load_sheets_located_only)
next
  assume h: "all_sheets_present wb (sheets xf) \<and> (\<forall>s\<in>set (sheets xf). models (located_only wb s) = [])"
  have n: "\<forall>s. sheet_name (located_only wb s) = sheet_name s"
    by (simp add: located_only_def keep_models_def split: option.splits)
  have "all_sheets_present wb (map (located_only wb) (sheets xf))"
    using h all_sheets_present_map[OF n] by simp
  moreover have "\<forall>s\<in>set (map (located_only wb) (sheets xf)). models s = []"
    using h by simp
  ultimately have "load_sheets wb (map (located_only wb) (sheets xf)) (clear_repos xf) = Completed (clear_repos xf)"
    by (rule load_sheets_no_models)
  then show "load_data wb xf = Completed (clear_repos xf)"
    by (simp add: load_data_def load_sheets_located_only)
next
  show "repo_of xf m = Some a \<and> located_nowhere wb xf a \<Longrightarrow> heap (state_of (load_data wb xf)) a = []"
    using load_data_not_located by blast
qed

theorem header_locator_first_match_witness:
  "find_header data_sheet cars_sheet plant_model = Inr (Some (2, 6))
   \<and> is_candidate data_sheet plant_model 6 \<and> header_matches data_sheet cars_sheet plant_model 6
   \<and> \<not> header_matches data_sheet cars_sheet plant_model 1
   \<and> find_header cars_only_sheet cars_sheet plant_model = Inr None
   \<and> parse_model cars_only_sheet cars_sheet plant_model loaded_file = Completed loaded_file
   \<and> heap loaded_file 1 = plant_records
   \<and> load_data [(''Cars'', cars_only_sheet)] loaded_file
       = Completed (loaded_file\<lparr>heap := (heap (clear_repos loaded_file))
            (0 := [[(''make'', PStr ''Toyota''), (''model'', PStr ''Camry''), (''year'', PInt 2020)]])\<rparr>)
   \<and> heap (state_of (load_data [(''Cars'', cars_only_sheet)] loaded_file)) 1 = []"
proof -
  have ne: "get_model_columns plant_model \<noteq> [] \<and> 1 \<le> header_row cars_sheet"
    by (simp add: plant_columns cars_sheet_rows)
  from header_locator_first_match[of plant_model cars_sheet data_sheet] ne
  have "find_header data_sheet cars_sheet plant_model = Inr (Some (2, 6)) \<longleftrightarrow>
          2 = header_row cars_sheet \<and> is_candidate data_sheet plant_model 6
          \<and> header_matches data_sheet cars_sheet plant_model 6
          \<and> (\<forall>c'. 1 \<le> c' \<and> c' < 6 \<longrightarrow> \<not> header_matches data_sheet cars_sheet plant_model c')"
    by blast
  then have "is_candidate data_sheet plant_model 6
          \<and> header_matches data_sheet cars_sheet plant_model 6
          \<and> (\<forall>c'. 1 \<le> c' \<and> c' < 6 \<longrightarrow> \<not> header_matches data_sheet cars_sheet plant_model c')"
    using find_plants by blast
  then have a: "is_candidate data_sheet plant_model 6" "header_matches data_sheet cars_sheet plant_model 6"
      "\<not> header_matches data_sheet cars_sheet plant_model 1"
    by simp_all
  note inst = header_locator_first_match[where m = plant_model and sp = cars_sheet and ws = cars_only_sheet
                and xf = loaded_file and a = 1 and wb = "[(''Cars'', cars_only_sheet)]"]
  from inst find_no_plants
  have b: "parse_model cars_only_sheet cars_sheet plant_model loaded_file = Completed loaded_file"
    by blast
  have r: "repo_of loaded_file plant_model = Some 1"
    by (simp add: repo_of_def loaded_file_def car_file_def class_ids)
  have r': "repo_of loaded_file car_model \<noteq> Some 1"
    by (simp add: repo_of_def loaded_file_def car_file_def class_ids)
  have n: "located_nowhere [(''Cars'', cars_only_sheet)] loaded_file 1"
    using r' find_no_plants
    by (simp add: located_nowhere_def loaded_file_def car_file_def cars_sheet_rows)
  from inst r n
  have c: "heap (state_of (load_data [(''Cars'', cars_only_sheet)] loaded_file)) 1 = []"
    by blast
  have d: "heap loaded_file 1 = plant_records" by (simp add: loaded_file_def)
  have k: "map (located_only [(''Cars'', cars_only_sheet)]) (sheets loaded_file)
             = [cars_sheet\<lparr>models := [car_model]\<rparr>]"
    by (simp add: loaded_file_def car_file_def located_only_def keep_models_def cars_sheet_rows
          find_cars_only find_no_plants)
  have cr: "map_of (repos (clear_repos loaded_file)) 0 = Some 0"
    by (simp add: clear_repos_def loaded_file_def car_file_def)
  have cr': "heap (clear_repos loaded_file) 0 = []"
    by (simp add: clear_repos_def loaded_file_def car_file_def)
  have p: "parse_model cars_only_sheet cars_sheet car_model (clear_repos loaded_file)
      = Completed (clear_repos loaded_file\<lparr>heap := (heap (clear_repos loaded_file))
            (0 := [[(''make'', PStr ''Toyota''), (''model'', PStr ''Camry''), (''year'', PInt 2020)]])\<rparr>)"
    using parse_model_cars_only[OF cr] cr' by simp
  have cf: "clear_repos loaded_file\<lparr>heap := h\<rparr> = loaded_file\<lparr>heap := h\<rparr>" for h
    by (simp add: clear_repos_def)
  from inst have "load_data [(''Cars'', cars_only_sheet)] loaded_file
       = load_sheets [(''Cars'', cars_only_sheet)]
           (map (located_only [(''Cars'', cars_only_sheet)]) (sheets loaded_file)) (clear_repos loaded_file)"
    by blast
  then have "load_data [(''Cars'', cars_only_sheet)] loaded_file
       = load_sheets [(''Cars'', cars_only_sheet)] [cars_sheet\<lparr>models := [car_model]\<rparr>] (clear_repos loaded_file)"
    by (simp only: k)
  then have l: "load_data [(''Cars'', cars_only_sheet)] loaded_file
       = Completed (loaded_file\<lparr>heap := (heap (clear_repos loaded_file))
            (0 := [[(''make'', PStr ''Toyota''), (''model'', PStr ''Camry''), (''year'', PInt 2020)]])\<rparr>)"
    using p cf by (simp add: cars_sheet_rows parse_sheet_def parse_model_models_update)
  show ?thesis by (intro conjI) (rule find_plants a find_no_plants b d l c)+
qed

text \<open>
  A record type without columns: the zero cells at start column 1 equal its expected labels
  positionally, yet the locator returns "not found". With header row 0 the locator raises
  the worksheet's error at the first cell it asks for.
\<close>

theorem header_locator_empty_schema_counterexample:
  "get_model_columns note_model = []
   \<and> is_candidate data_sheet note_model 1
   \<and> header_matches data_sheet notes_sheet note_model 1
   \<and> find_header data_sheet notes_sheet note_model = Inr None
   \<and> find_header data_sheet (cars_sheet\<lparr>header_row := 0\<rparr>) car_model = Inl cell_error"
proof -
  have e: "expected_headers note_model = []" by (simp add: expected_headers_def note_columns)
  have 1: "is_candidate data_sheet note_model 1" by (simp add: is_candidate_def e data_sheet_size)
  have 2: "header_matches data_sheet notes_sheet note_model 1"
    by (simp add: header_matches_def e actual_headers_def row_values_def)
  have 3: "find_header data_sheet notes_sheet note_model = Inr None"
    by (simp add: find_header_def e)
  have 4: "find_header data_sheet (cars_sheet\<lparr>header_row := 0\<rparr>) car_model = Inl cell_error"
    by (simp add: find_header_def expected_headers_def car_columns Let_def data_sheet_size upto.simps
          read_row_def cell_read_def cell_error_def)
  show ?thesis by (intro conjI) (rule note_columns 1 2 3 4)+
qed

lemma pluralize_endswith_s: "endswith_s (pluralize s)"
  by (simp add: pluralize_def endswith_s_def)

lemma reserved_filter:
  "filter endswith_s reserved_attrs = [''sheets'', ''_repos'']"
  by (simp add: reserved_attrs_def instance_attrs_def class_attrs_def object_attrs_def endswith_s_def)

lemma reserved_endswith_s:
  assumes "nm \<in> set reserved_attrs" and "endswith_s nm"
  shows "nm = ''sheets'' \<or> nm = ''_repos''"
proof -
  have "nm \<in> set (filter endswith_s reserved_attrs)" using assms by simp
  then show ?thesis unfolding reserved_filter by simp
qed

lemma not_reserved:
  assumes "''sheets'' \<notin> repo_name_for_model ` set ms" and "''_repos'' \<notin> repo_name_for_model ` set ms"
  shows "\<forall>m\<in>set ms. repo_name_for_model m \<notin> set reserved_attrs"
proof
  fix m assume m: "m \<in> set ms"
  show "repo_name_for_model m \<notin> set reserved_attrs"
  proof
    assume "repo_name_for_model m \<in> set reserved_attrs"
    moreover have "endswith_s (repo_name_for_model m)"
      by (simp add: repo_name_for_model_def pluralize_endswith_s)
    ultimately have "repo_name_for_model m = ''sheets'' \<or> repo_name_for_model m = ''_repos''"
      by (rule reserved_endswith_s)
    then show False using assms m by (metis image_eqI)
  qed
qed

lemma zip_upt_lookup:
  assumes "distinct ks" and "i < length ks"
  shows "map_of (zip ks [0..<length ks]) (ks ! i) = Some i"
  using map_of_zip_nth[of ks "[0..<length ks]" i] assms by simp

text \<open>
  C3 (amended). Construction fails with the duplicate-name error as soon as two references
  in the sheet specifications derive the same repository name, whether or not they are
  different record types. When the derived names of all references are pairwise distinct
  and none of them is \<open>sheets\<close> or \<open>_repos\<close>, construction succeeds: the i-th referenced
  type gets repository i, empty, registered for the type and exposed under its derived
  name, and nothing else is registered. Construction reads the sheet specifications only.
\<close>

theorem construction_duplicate_names:
  "(\<not> distinct (map repo_name_for_model (referenced_models shs)) \<longrightarrow>
      (\<exists>m\<in>set (referenced_models shs). excel_file_init shs = Inl (duplicate_error m)))
   \<and> (distinct (map repo_name_for_model (referenced_models shs))
        \<and> ''sheets'' \<notin> repo_name_for_model ` set (referenced_models shs)
        \<and> ''_repos'' \<notin> repo_name_for_model ` set (referenced_models shs)
        \<and> types_consistent (referenced_models shs) \<longrightarrow>
      (\<exists>xf. excel_file_init shs = Inr xf
         \<and> xf = \<lparr>sheets = shs,
                  repos = zip (map class_id (referenced_models shs)) [0..<length (referenced_models shs)],
                  attrs = zip (map repo_name_for_model (referenced_models shs)) [0..<length (referenced_models shs)],
                  heap = (\<lambda>_. []),
                  next_addr = length (referenced_models shs)\<rparr>
         \<and> (\<forall>i<length (referenced_models shs).
               repo_of xf (referenced_models shs ! i) = Some i
               \<and> map_of (attrs xf) (repo_name_for_model (referenced_models shs ! i)) = Some i
               \<and> heap xf i = [])))"
proof (intro conjI impI)
  assume "\<not> distinct (map repo_name_for_model (referenced_models shs))"
  then show "\<exists>m\<in>set (referenced_models shs). excel_file_init shs = Inl (duplicate_error m)"
    by (rule init_duplicate)
next
  let ?ms = "referenced_models shs"
  let ?xf = "\<lparr>sheets = shs, repos = zip (map class_id ?ms) [0..<length ?ms],
              attrs = zip (map repo_name_for_model ?ms) [0..<length ?ms],
              heap = (\<lambda>_. []), next_addr = length ?ms\<rparr>"
  assume h: "distinct (map repo_name_for_model ?ms)
        \<and> ''sheets'' \<notin> repo_name_for_model ` set ?ms
        \<and> ''_repos'' \<notin> repo_name_for_model ` set ?ms
        \<and> types_consistent ?ms"
  then have d: "distinct (map repo_name_for_model ?ms)" and t: "types_consistent ?ms" by simp_all
  have r: "\<forall>m\<in>set ?ms. repo_name_for_model m \<notin> set reserved_attrs"
    using h not_reserved by blast
  have init: "excel_file_init shs = Inr ?xf" using init_ok[OF d r t] .
  have dc: "distinct (map class_id ?ms)" using distinct_ids[OF t d] .
  have look: "\<forall>i<length ?ms. repo_of ?xf (?ms ! i) = Some i
               \<and> map_of (attrs ?xf) (repo_name_for_model (?ms ! i)) = Some i \<and> heap ?xf i = []"
  proof (intro allI impI)
    fix i assume i: "i < length ?ms"
    have "map_of (zip (map class_id ?ms) [0..<length (map class_id ?ms)]) (map class_id ?ms ! i) = Some i"
      using dc i by (intro zip_upt_lookup) simp_all
    moreover have "map_of (zip (map repo_name_for_model ?ms) [0..<length (map repo_name_for_model ?ms)])
                     (map repo_name_for_model ?ms ! i) = Some i"
      using d i by (intro zip_upt_lookup) simp_all
    ultimately show "repo_of ?xf (?ms ! i) = Some i
               \<and> map_of (attrs ?xf) (repo_name_for_model (?ms ! i)) = Some i \<and> heap ?xf i = []"
      using i by (simp add: repo_of_def)
  qed
  show "\<exists>xf. excel_file_init shs = Inr xf \<and> xf = ?xf
         \<and> (\<forall>i<length ?ms. repo_of xf (?ms ! i) = Some i
               \<and> map_of (attrs xf) (repo_name_for_model (?ms ! i)) = Some i \<and> heap xf i = [])"
    using init look by blast
qed

theorem construction_duplicate_names_witness:
  "excel_file_init [cars_sheet] = Inr car_file
   \<and> (excel_file_init [clash_sheet] = Inl (duplicate_error car_model)
      \<or> excel_file_init [clash_sheet] = Inl (duplicate_error cars_class_model))"
proof -
  have ms: "referenced_models [cars_sheet] = [car_model, plant_model]"
    by (simp add: referenced_models_def cars_sheet_def)
  have tc: "types_consistent [car_model, plant_model]"
    by (simp add: types_consistent_def) (simp add: car_model_def plant_model_def)
  have "excel_file_init [cars_sheet] = Inr car_file"
    using construction_duplicate_names[of "[cars_sheet]"] tc
    by (simp add: ms repo_names class_ids car_file_def upt_rec numeral_2_eq_2)
  moreover have ms': "referenced_models [clash_sheet] = [car_model, cars_class_model]"
    by (simp add: referenced_models_def clash_sheet_def cars_sheet_def)
  have "excel_file_init [clash_sheet] = Inl (duplicate_error car_model)
      \<or> excel_file_init [clash_sheet] = Inl (duplicate_error cars_class_model)"
    using construction_duplicate_names[of "[clash_sheet]"]
    by (simp add: ms' repo_names)
  ultimately show ?thesis by simp
qed

text \<open>
  The same record type referenced twice: only one type is referenced, so no two different
  types derive the same name, and construction fails.
\<close>


lemma hasattr_fresh_cars:
  "\<not> hasattr \<lparr>sheets = shs, repos = [], attrs = [], heap = h, next_addr = 0\<rparr> ''cars''"
  by (simp add: hasattr_def instance_attrs_def class_attrs_def object_attrs_def)

theorem construction_same_type_twice_counterexample:
  "set (referenced_models [twice_sheet]) = {car_model}
   \<and> excel_file_init [twice_sheet]
       = Inl (ValueError (''Duplicate repo name '' @ quote ''cars'' @ '' for model Car''))"
proof -
  have ms: "models twice_sheet = [car_model, car_model]"
    by (simp add: twice_sheet_def)
  have nm: "class_name car_model = ''Car''" by (simp add: car_model_def)
  have 1: "register_model car_model \<lparr>sheets = [twice_sheet], repos = [], attrs = [], heap = (\<lambda>_. []), next_addr = 0\<rparr>
      = Inr \<lparr>sheets = [twice_sheet], repos = [(class_id car_model, 0)], attrs = [(''cars'', 0)],
             heap = (\<lambda>_. [])(0 := []), next_addr = Suc 0\<rparr>"
    using hasattr_fresh_cars by (simp add: register_model_def repo_names Let_def)
  have 2: "register_model car_model \<lparr>sheets = [twice_sheet], repos = [(class_id car_model, 0)], attrs = [(''cars'', 0)],
             heap = (\<lambda>_. [])(0 := []), next_addr = Suc 0\<rparr>
      = Inl (ValueError (''Duplicate repo name '' @ quote ''cars'' @ '' for model Car''))"
    by (simp add: register_model_def repo_names Let_def hasattr_def nm)
  have "excel_file_init [twice_sheet]
       = Inl (ValueError (''Duplicate repo name '' @ quote ''cars'' @ '' for model Car''))"
    by (simp add: excel_file_init_def ms 1 2)
  moreover have "set (referenced_models [twice_sheet]) = {car_model}"
    by (simp add: referenced_models_def ms)
  ultimately show ?thesis by simp
qed

lemma load_sheets_append:
  "load_sheets wb (pre @ post) xf =
     (case load_sheets wb pre xf of
        Completed xf' \<Rightarrow> load_sheets wb post xf'
      | Raised e xf' \<Rightarrow> Raised e xf')"
  by (induction pre arbitrary: xf) (auto split: option.splits outcome.splits)

lemma load_sheets_missing:
  assumes "map_of wb (sheet_name sp) = None"
  shows "load_sheets wb (pre @ sp # post) xf =
     (case load_sheets wb pre xf of
        Completed xf' \<Rightarrow> Raised (missing_sheet_error sp) xf'
      | Raised e xf' \<Rightarrow> Raised e xf')"
  using assms by (simp add: load_sheets_append missing_sheet_error_def split: outcome.splits)

text \<open>
  C1 (amended). For every orchestrator and every document in which some sheet
  specification's sheet is absent, \<open>load_data\<close> fails, but not before it has touched the
  repositories: it first clears every repository, then parses the sheets of the
  specifications that precede the absent one into their repositories and, unless one of
  them fails first, raises the missing-sheet error. When the absent sheet belongs to the
  first specification the error is the missing-sheet error and every repository is left
  empty.
\<close>

theorem missing_sheet_after_clearing:
  assumes "sheets xf = pre @ sp # post" and "map_of wb (sheet_name sp) = None"
  shows "load_data wb xf =
           (case load_sheets wb pre (clear_repos xf) of
              Completed xf' \<Rightarrow> Raised (missing_sheet_error sp) xf'
            | Raised e xf' \<Rightarrow> Raised e xf')
       \<and> (\<exists>e xf'. load_data wb xf = Raised e xf')
       \<and> (\<forall>m a. repo_of xf m = Some a \<longrightarrow> heap (clear_repos xf) a = [])
       \<and> (pre = [] \<longrightarrow> load_data wb xf = Raised (missing_sheet_error sp) (clear_repos xf))"
proof (intro conjI allI impI)
  show eq: "load_data wb xf =
           (case load_sheets wb pre (clear_repos xf) of
              Completed xf' \<Rightarrow> Raised (missing_sheet_error sp) xf'
            | Raised e xf' \<Rightarrow> Raised e xf')"
    using assms by (simp add: load_data_def load_sheets_missing)
  show "\<exists>e xf'. load_data wb xf = Raised e xf'"
    unfolding eq by (cases "load_sheets wb pre (clear_repos xf)") simp_all
  show "pre = [] \<Longrightarrow> load_data wb xf = Raised (missing_sheet_error sp) (clear_repos xf)"
    unfolding eq by simp
next
  fix m a assume "repo_of xf m = Some a"
  then show "heap (clear_repos xf) a = []" by (rule repo_of_cleared)
qed

theorem missing_sheet_after_clearing_witness:
  "load_data wrong_workbook loaded_file = Raised (missing_sheet_error cars_sheet) (clear_repos loaded_file)
   \<and> missing_sheet_error cars_sheet = ValueError (''Workbook missing sheet '' @ quote ''Cars'')
   \<and> heap (clear_repos loaded_file) 0 = [] \<and> heap (clear_repos loaded_file) 1 = []"
proof -
  have s: "sheets loaded_file = [] @ cars_sheet # []" by (simp add: loaded_file_def car_file_def)
  have w: "map_of wrong_workbook (sheet_name cars_sheet) = None"
    by (simp add: wrong_workbook_def cars_sheet_rows)
  note inst = missing_sheet_after_clearing[OF s w]
  from inst have 1: "load_data wrong_workbook loaded_file
      = Raised (missing_sheet_error cars_sheet) (clear_repos loaded_file)" by blast
  have 2: "missing_sheet_error cars_sheet = ValueError (''Workbook missing sheet '' @ quote ''Cars'')"
    by (simp add: missing_sheet_error_def cars_sheet_rows)
  have r: "repo_of loaded_file car_model = Some 0" "repo_of loaded_file plant_model = Some 1"
    by (simp_all add: repo_of_def loaded_file_def car_file_def class_ids)
  from inst r have 3: "heap (clear_repos loaded_file) 0 = []" and 4: "heap (clear_repos loaded_file) 1 = []"
    by blast+
  show ?thesis by (intro conjI) (rule 1 2 3 4)+
qed

text \<open>
  The orchestrator of the test suite after a load of the data sheet, given the document of
  the missing-sheet test: \<open>load_data\<close> raises, and the two cars and two plants of the
  earlier load are gone.
\<close>

theorem missing_sheet_clears_counterexample:
  "load_data [(''Cars'', data_sheet)] car_file = Completed loaded_file
   \<and> heap loaded_file 0 = car_records \<and> heap loaded_file 1 = plant_records
   \<and> map_of wrong_workbook (sheet_name cars_sheet) = None
   \<and> load_data wrong_workbook loaded_file
       = Raised (ValueError (''Workbook missing sheet '' @ quote ''Cars'')) (loaded_file\<lparr>heap := (\<lambda>_. [])\<rparr>)
   \<and> loaded_file\<lparr>heap := (\<lambda>_. [])\<rparr> \<noteq> loaded_file"
proof -
  have 1: "heap loaded_file 0 = car_records" and 2: "heap loaded_file 1 = plant_records"
    by (simp_all add: loaded_file_def)
  have 3: "map_of wrong_workbook (sheet_name cars_sheet) = None"
    by (simp add: wrong_workbook_def cars_sheet_rows)
  have c: "clear_repos loaded_file = loaded_file\<lparr>heap := (\<lambda>_. [])\<rparr>"
    by (simp add: clear_repos_def loaded_file_def car_file_def fun_eq_iff)
  have 4: "load_data wrong_workbook loaded_file
       = Raised (ValueError (''Workbook missing sheet '' @ quote ''Cars'')) (loaded_file\<lparr>heap := (\<lambda>_. [])\<rparr>)"
    by (simp add: load_data_def c) (simp add: loaded_file_def car_file_def wrong_workbook_def cars_sheet_rows)
  have "heap (loaded_file\<lparr>heap := (\<lambda>_. [])\<rparr>) 0 \<noteq> heap loaded_file 0"
    by (simp add: loaded_file_def car_records_def)
  then have 5: "loaded_file\<lparr>heap := (\<lambda>_. [])\<rparr> \<noteq> loaded_file" by metis
  show ?thesis by (intro conjI) (rule load_data_sheet 1 2 3 4 5)+
qed

lemma register_model_allocated:
  assumes "register_model m xf = Inr xf'" and "addresses_allocated xf"
  shows "addresses_allocated xf'"
proof -
  have xf': "repos xf' = dict_set (class_id m) (next_addr xf) (repos xf)" "next_addr xf' = next_addr xf + 1"
    using assms(1) by (auto simp: register_model_def Let_def split: if_splits)
  have mono: "list_all (\<lambda>(k, a). a < n + 1) d" if "list_all (\<lambda>(k, a). a < n) d"
    for d :: "(nat \<times> nat) list" and n :: nat
    using that by (auto simp: list_all_iff)
  have "list_all (\<lambda>(k, a). a < n + 1) (dict_set k' n d)" if "list_all (\<lambda>(k, a). a < n) d"
    for d and n :: nat and k' :: nat
    using that mono by (induction d) (auto split: if_splits)
  then show ?thesis using assms(2) xf' by (simp add: addresses_allocated_def)
qed

lemma register_models_allocated:
  "register_models ms xf = Inr xf' \<Longrightarrow> addresses_allocated xf \<Longrightarrow> addresses_allocated xf'"
proof (induction ms arbitrary: xf)
  case Nil
  then show ?case by simp
next
  case (Cons m ms)
  then obtain xf1 where 1: "register_model m xf = Inr xf1" and 2: "register_models ms xf1 = Inr xf'"
    by (auto split: sum.splits)
  show ?case using Cons.IH[OF 2 register_model_allocated[OF 1 Cons.prems(2)]] .
qed

lemma init_allocated:
  "excel_file_init shs = Inr xf \<Longrightarrow> addresses_allocated xf"
  unfolding excel_file_init_def register_sheets_flat
  by (erule register_models_allocated) (simp add: addresses_allocated_def)

lemma parse_model_next_addr:
  "next_addr (state_of (parse_model ws sp m xf)) = next_addr xf"
  by (simp add: parse_model_def state_of_def Let_def
           split: option.splits outcome.splits prod.splits sum.splits)

lemma parse_models_fields:
  "next_addr (state_of (parse_models ws sp ms xf)) = next_addr xf
   \<and> repos (state_of (parse_models ws sp ms xf)) = repos xf"
proof (induction ms arbitrary: xf)
  case Nil
  then show ?case by (simp add: state_of_def)
next
  case (Cons m ms)
  have a: "next_addr (state_of (parse_model ws sp m xf)) = next_addr xf"
    and b: "repos (state_of (parse_model ws sp m xf)) = repos xf"
    by (rule parse_model_next_addr, rule parse_model_repos)
  show ?case
  proof (cases "parse_model ws sp m xf")
    case (Completed xf')
    then show ?thesis using a b Cons.IH[of xf'] by (simp add: state_of_def)
  next
    case (Raised e xf')
    then show ?thesis using a b by (simp add: state_of_def)
  qed
qed

lemma load_sheets_fields:
  "next_addr (state_of (load_sheets wb sps xf)) = next_addr xf
   \<and> repos (state_of (load_sheets wb sps xf)) = repos xf"
proof (induction sps arbitrary: xf)
  case Nil
  then show ?case by (simp add: state_of_def)
next
  case (Cons sp sps)
  show ?case
  proof (cases "map_of wb (sheet_name sp)")
    case None
    then show ?thesis by (simp add: state_of_def)
  next
    case (Some ws)
    have ab: "next_addr (state_of (parse_sheet ws sp xf)) = next_addr xf
              \<and> repos (state_of (parse_sheet ws sp xf)) = repos xf"
      unfolding parse_sheet_def by (rule parse_models_fields)
    show ?thesis
    proof (cases "parse_sheet ws sp xf")
      case (Completed xf')
      then show ?thesis using Some ab Cons.IH[of xf'] by (simp add: state_of_def)
    next
      case (Raised e xf')
      then show ?thesis using Some ab by (simp add: state_of_def)
    qed
  qed
qed

lemma load_data_allocated:
  "addresses_allocated xf \<Longrightarrow> addresses_allocated (state_of (load_data wb xf))"
  using load_sheets_fields[of wb "sheets xf" "clear_repos xf"]
  by (simp add: addresses_allocated_def load_data_def clear_repos_def)

lemma repo_of_allocated:
  assumes "addresses_allocated xf" and "repo_of xf m = Some repo"
  shows "repo < next_addr xf"
proof -
  have "(class_id m, repo) \<in> set (repos xf)" using assms(2) by (simp add: repo_of_def map_of_SomeD)
  then show ?thesis using assms(1) by (auto simp: addresses_allocated_def list_all_iff)
qed

text \<open>
  C9. For every repository of an orchestrator, \<open>all()\<close> returns a list object that did not
  exist before the call and holds the repository's current contents in their order; the
  call changes no other list object and neither the repositories nor the attributes of the
  orchestrator; whatever is done to the returned list afterwards, the repository keeps its
  contents; and a second call returns another new list with the same contents as the
  first. Every orchestrator that construction returns, and every state a load leaves it in,
  has its repositories allocated.
\<close>

theorem repository_all_fresh_copy:
  assumes "addresses_allocated xf" and "repo_of xf m = Some repo"
  shows "(case repository_all repo xf of
            (res, xf') \<Rightarrow>
              next_addr xf \<le> res \<and> res < next_addr xf' \<and> res \<noteq> repo
              \<and> heap xf' res = heap xf repo
              \<and> (\<forall>a. a \<noteq> res \<longrightarrow> heap xf' a = heap xf a)
              \<and> repos xf' = repos xf \<and> attrs xf' = attrs xf \<and> sheets xf' = sheets xf
              \<and> addresses_allocated xf'
              \<and> (\<forall>f. heap (list_mutate res f xf') repo = heap xf repo)
              \<and> (case repository_all repo xf' of
                    (res2, xf'') \<Rightarrow>
                      res2 \<noteq> res \<and> res2 \<noteq> repo
                      \<and> heap xf'' res2 = heap xf'' res \<and> heap xf'' res2 = heap xf repo))"
proof -
  have lt: "repo < next_addr xf" using assms by (rule repo_of_allocated)
  have "addresses_allocated (xf\<lparr>heap := (heap xf)(next_addr xf := heap xf repo), next_addr := next_addr xf + 1\<rparr>)"
    using assms(1) by (auto simp: addresses_allocated_def list_all_iff)
  then show ?thesis
    using lt by (simp add: repository_all_def list_mutate_def Let_def)
qed

theorem repository_all_fresh_copy_witness:
  "repository_all 0 loaded_file = (2, loaded_file\<lparr>heap := (heap loaded_file)(2 := car_records), next_addr := 3\<rparr>)
   \<and> heap (list_mutate 2 (\<lambda>xs. []) (snd (repository_all 0 loaded_file))) 0 = car_records
   \<and> fst (repository_all 0 (snd (repository_all 0 loaded_file))) = 3
   \<and> heap (snd (repository_all 0 (snd (repository_all 0 loaded_file)))) 3 = car_records"
proof -
  have al: "addresses_allocated loaded_file"
    by (simp add: addresses_allocated_def loaded_file_def car_file_def)
  have r: "repo_of loaded_file car_model = Some 0"
    by (simp add: repo_of_def loaded_file_def car_file_def class_ids)
  have h: "heap loaded_file 0 = car_records" by (simp add: loaded_file_def)
  have n: "next_addr loaded_file = 2" by (simp add: loaded_file_def car_file_def)
  have 1: "repository_all 0 loaded_file
      = (2, loaded_file\<lparr>heap := (heap loaded_file)(2 := car_records), next_addr := 3\<rparr>)"
    by (simp add: repository_all_def Let_def h n)
  note inst = repository_all_fresh_copy[OF al r]
  have 2: "heap (list_mutate 2 (\<lambda>xs. []) (snd (repository_all 0 loaded_file))) 0 = car_records"
    using inst h by (simp add: 1)
  have 3: "fst (repository_all 0 (snd (repository_all 0 loaded_file))) = 3"
    by (simp add: 1) (simp add: repository_all_def Let_def)
  have 4: "heap (snd (repository_all 0 (snd (repository_all 0 loaded_file)))) 3 = car_records"
    using inst h by (simp add: 1) (simp add: repository_all_def Let_def)
  show ?thesis by (intro conjI) (rule 1 2 3 4)+
qed

text \<open>
  C4. For every located block whose sheet specification has a 1-based \<open>data_start_row\<close> (the
  specification's row numbers are 1-based), row scanning starts at \<open>data_start_row\<close> and
  stops at the first row whose cells across the block's width are all blank, or after the
  last row of the sheet when there is none: the repository receives, in order, one record
  for each row between \<open>data_start_row\<close> and that row that is not excluded, and nothing from
  that row or the rows after it, whatever they hold. There is exactly one such row for
  every sheet. When no row is excluded and every row parses, the repository grows by as
  many records as there are rows before the blank row.
\<close>

theorem blank_row_ends_block:
  assumes "find_header ws sp m = Inr (Some (hr, sc))"
    and "repo_of xf m = Some a"
    and "1 \<le> data_start_row sp"
    and "ends_block ws (get_model_columns m) sc (data_start_row sp) stop"
  shows "parse_model ws sp m xf =
           store_rows xf a
             (append_records m (get_model_columns m)
                (filter (\<lambda>row. \<not> row_excluded (get_model_columns m) row)
                   (block_rows ws (get_model_columns m) sc (data_start_row sp) stop))
                (heap xf a))
       \<and> (\<forall>stop'. ends_block ws (get_model_columns m) sc (data_start_row sp) stop' \<longrightarrow> stop' = stop)
       \<and> (\<forall>ws'. max_row ws' = max_row ws
              \<and> (\<forall>r c. data_start_row sp \<le> r \<and> r \<le> stop \<longrightarrow> cell_value ws' r c = cell_value ws r c)
            \<longrightarrow> parse_rows ws' m (get_model_columns m) sc (data_start_row sp) (heap xf a)
                = parse_rows ws m (get_model_columns m) sc (data_start_row sp) (heap xf a))
       \<and> (list_all (\<lambda>row. \<not> row_excluded (get_model_columns m) row \<and> \<not> isl (make_record m (get_model_columns m) row))
             (block_rows ws (get_model_columns m) sc (data_start_row sp) stop)
            \<longrightarrow> parse_model ws sp m xf =
                  Completed (xf\<lparr>heap := (heap xf)(a := heap xf a
                     @ map (\<lambda>row. projr (make_record m (get_model_columns m) row))
                         (block_rows ws (get_model_columns m) sc (data_start_row sp) stop))\<rparr>)
                \<and> length (block_rows ws (get_model_columns m) sc (data_start_row sp) stop)
                    = nat (stop - data_start_row sp))"
proof -
  let ?cols = "get_model_columns m"
  let ?r0 = "data_start_row sp"
  let ?rows = "block_rows ws ?cols sc ?r0 stop"
  have sc: "1 \<le> sc" using find_header_located[OF assms(1)] by simp
  have a: "map_of (repos xf) (class_id m) = Some a" using assms(2) by (simp add: repo_of_def)
  have le: "?r0 \<le> stop" using assms(4) by (simp add: ends_block_def)
  have rows: "\<And>repo. parse_rows ws m ?cols sc ?r0 repo =
      append_records m ?cols (filter (\<lambda>row. \<not> row_excluded ?cols row) ?rows) repo"
    using assms(3) sc assms(4) by (rule parse_rows_ends_block)
  have 1: "parse_model ws sp m xf =
      store_rows xf a (append_records m ?cols (filter (\<lambda>row. \<not> row_excluded ?cols row) ?rows) (heap xf a))"
    by (simp add: parse_model_def assms(1) a rows store_rows_def)
  have 2: "\<forall>stop'. ends_block ws ?cols sc ?r0 stop' \<longrightarrow> stop' = stop"
    using assms(4) by (blast intro: ends_block_unique)
  have 3: "parse_rows ws' m ?cols sc ?r0 (heap xf a) = parse_rows ws m ?cols sc ?r0 (heap xf a)"
    if mr: "max_row ws' = max_row ws"
      and eq: "\<forall>r c. ?r0 \<le> r \<and> r \<le> stop \<longrightarrow> cell_value ws' r c = cell_value ws r c" for ws'
  proof -
    have rv: "row_values ws' r sc (length ?cols) = row_values ws r sc (length ?cols)"
      if "?r0 \<le> r" "r \<le> stop" for r
      using that eq by (simp add: row_values_def)
    have br: "block_rows ws' ?cols sc ?r0 stop = ?rows"
      by (simp add: block_rows_def rv)
    have "ends_block ws' ?cols sc ?r0 stop"
      using assms(4) le by (simp add: ends_block_def br mr rv)
    then have "parse_rows ws' m ?cols sc ?r0 (heap xf a) =
      append_records m ?cols (filter (\<lambda>row. \<not> row_excluded ?cols row) (block_rows ws' ?cols sc ?r0 stop)) (heap xf a)"
      using assms(3) sc by (intro parse_rows_ends_block)
    then show ?thesis by (simp add: br rows)
  qed
  have 4: "parse_model ws sp m xf =
        Completed (xf\<lparr>heap := (heap xf)(a := heap xf a @ map (\<lambda>row. projr (make_record m ?cols row)) ?rows)\<rparr>)
      \<and> length ?rows = nat (stop - ?r0)"
    if ok: "list_all (\<lambda>row. \<not> row_excluded ?cols row \<and> \<not> isl (make_record m ?cols row)) ?rows"
  proof -
    have f: "filter (\<lambda>row. \<not> row_excluded ?cols row) ?rows = ?rows"
      using ok by (simp add: list_all_iff)
    have g: "list_all (\<lambda>row. \<not> isl (make_record m ?cols row)) ?rows"
      using ok by (simp add: list_all_iff)
    show ?thesis
      unfolding 1 f append_records_all_ok[OF g] by (simp add: store_rows_def block_rows_length[OF le])
  qed
  show ?thesis using 1 2 3 4 by blast
qed

text \<open>
  The data sheet has cars on rows 3 and 4, a blank row 5 and a car on row 6: a load into a
  repository that holds a record yields the two cars of rows 3 and 4 after it, and the car
  of row 6 is not loaded.
\<close>

theorem blank_row_ends_block_witness:
  "parse_model data_sheet cars_sheet car_model (note_file\<lparr>sheets := [cars_sheet]\<rparr>)
     = Completed (note_file\<lparr>sheets := [cars_sheet], heap := (heap note_file)(1 := car_records @ car_records)\<rparr>)
   \<and> ends_block data_sheet (get_model_columns car_model) 1 3 5
   \<and> \<not> row_is_blank (row_values data_sheet 6 1 (length (get_model_columns car_model)))
   \<and> length (block_rows data_sheet (get_model_columns car_model) 1 (data_start_row cars_sheet) 5) = 2"
proof -
  let ?xf = "note_file\<lparr>sheets := [cars_sheet]\<rparr>"
  have r: "repo_of ?xf car_model = Some 1"
    by (simp add: repo_of_def note_file_def class_ids)
  have d: "1 \<le> data_start_row cars_sheet" "data_start_row cars_sheet = 3" by (simp_all add: cars_sheet_rows)
  have e: "ends_block data_sheet (get_model_columns car_model) 1 3 5"
    by (simp add: ends_block_def car_rows_not_blank car_row_5_blank data_sheet_size)
  then have e': "ends_block data_sheet (get_model_columns car_model) 1 (data_start_row cars_sheet) 5"
    by (simp add: d)
  have ok: "list_all (\<lambda>row. \<not> row_excluded (get_model_columns car_model) row
                \<and> \<not> isl (make_record car_model (get_model_columns car_model) row))
             (block_rows data_sheet (get_model_columns car_model) 1 (data_start_row cars_sheet) 5)"
    unfolding d car_block_rows by (simp add: car_rows_not_excluded make_record_car_1 make_record_car_2)
  have h: "heap note_file (Suc 0) = car_records" by (simp add: note_file_def)
  note inst = blank_row_ends_block[OF find_cars r d(1) e']
  from inst ok have p:
    "parse_model data_sheet cars_sheet car_model ?xf =
        Completed (?xf\<lparr>heap := (heap ?xf)(1 := heap ?xf 1
           @ map (\<lambda>row. projr (make_record car_model (get_model_columns car_model) row))
               (block_rows data_sheet (get_model_columns car_model) 1 (data_start_row cars_sheet) 5))\<rparr>)"
    and l: "length (block_rows data_sheet (get_model_columns car_model) 1 (data_start_row cars_sheet) 5)
              = nat (5 - data_start_row cars_sheet)"
    by blast+
  have 4: "length (block_rows data_sheet (get_model_columns car_model) 1 (data_start_row cars_sheet) 5) = 2"
    unfolding l by (simp add: d)
  from p have 1: "parse_model data_sheet cars_sheet car_model ?xf
     = Completed (note_file\<lparr>sheets := [cars_sheet], heap := (heap note_file)(1 := car_records @ car_records)\<rparr>)"
    unfolding d car_block_rows by (simp add: h make_record_car_1 make_record_car_2 car_records_def)
  show ?thesis by (intro conjI) (rule 1 e car_row_6_not_blank 4)+
qed

text \<open>
  C6. For every located block whose sheet specification has a 1-based \<open>data_start_row\<close> and
  every row of the sheet from \<open>data_start_row\<close> on that is not blank across the block's
  width: if the raw cell value of some column is a member of that column's exclusion
  set, the Row Loader goes on at the next row with the repository as it was, so no record
  is constructed (no parser, validator or record hook runs on the row); the row does not
  end the scan: the rows after it, up to the row that ends the block, are loaded as if the
  excluded row were not there.
\<close>

theorem excluded_row_skipped:
  assumes "find_header ws sp m = Inr (Some (hr, sc))"
    and "1 \<le> data_start_row sp" and "data_start_row sp \<le> r" and "r \<le> max_row ws"
    and "\<not> row_is_blank (row_values ws r sc (length (get_model_columns m)))"
    and "\<exists>i<length (get_model_columns m). \<exists>ex.
           excludes (spec (get_model_columns m ! i)) = Some ex
           \<and> (\<exists>x\<in>set ex. py_eq (row_values ws r sc (length (get_model_columns m)) ! i) x)"
  shows "(\<forall>repo. parse_rows ws m (get_model_columns m) sc r repo
                  = parse_rows ws m (get_model_columns m) sc (r + 1) repo)
       \<and> (\<forall>stop a. repo_of xf m = Some a \<and> r < stop
              \<and> ends_block ws (get_model_columns m) sc (data_start_row sp) stop
            \<longrightarrow> parse_model ws sp m xf =
                  store_rows xf a
                    (append_records m (get_model_columns m)
                       (filter (\<lambda>row. \<not> row_excluded (get_model_columns m) row)
                          (block_rows ws (get_model_columns m) sc (data_start_row sp) r
                           @ block_rows ws (get_model_columns m) sc (r + 1) stop))
                       (heap xf a)))"
proof (intro conjI allI impI)
  let ?cols = "get_model_columns m"
  let ?r0 = "data_start_row sp"
  have sc: "1 \<le> sc" using find_header_located[OF assms(1)] by simp
  have r: "1 \<le> r" using assms(2,3) by simp
  have ex: "row_excluded ?cols (row_values ws r sc (length ?cols))"
    using assms(6) by (simp only: row_excluded_iff)
  show "parse_rows ws m ?cols sc r repo = parse_rows ws m ?cols sc (r + 1) repo" for repo
    using r sc assms(4,5) ex by (rule parse_rows_excluded)
  fix stop a
  assume h: "repo_of xf m = Some a \<and> r < stop \<and> ends_block ws ?cols sc ?r0 stop"
  then have a: "map_of (repos xf) (class_id m) = Some a" by (simp add: repo_of_def)
  have split: "block_rows ws ?cols sc ?r0 stop =
      block_rows ws ?cols sc ?r0 r @ row_values ws r sc (length ?cols) # block_rows ws ?cols sc (r + 1) stop"
  proof -
    have "[?r0..stop - 1] = [?r0..r - 1] @ r # [r + 1..stop - 1]"
      using assms(3) h upto_split2[of ?r0 r "stop - 1"] upto_rec2[of ?r0 r] by simp
    then show ?thesis by (simp add: block_rows_def)
  qed
  have "parse_rows ws m ?cols sc ?r0 (heap xf a) =
      append_records m ?cols (filter (\<lambda>row. \<not> row_excluded ?cols row) (block_rows ws ?cols sc ?r0 stop)) (heap xf a)"
    using assms(2) sc conjunct2[OF conjunct2[OF h]] by (rule parse_rows_ends_block)
  then show "parse_model ws sp m xf =
      store_rows xf a
        (append_records m ?cols
           (filter (\<lambda>row. \<not> row_excluded ?cols row)
              (block_rows ws ?cols sc ?r0 r @ block_rows ws ?cols sc (r + 1) stop))
           (heap xf a))"
    by (simp add: parse_model_def assms(1) a store_rows_def split ex)
qed

text \<open>
  The parts sheet has parts on rows 3 and 5 and, on row 4, a part whose code \<open>n/a\<close> is in
  the exclusion set of the integer column \<open>code\<close>: the integer parser would fail on it, yet
  the load completes with the parts of rows 3 and 5 and nothing else.
\<close>

theorem excluded_row_skipped_witness:
  "parse_model parts_sheet parts_spec part_model part_file
     = Completed (part_file\<lparr>heap := (heap part_file)(0 := heap part_file 0 @ part_records)\<rparr>)
   \<and> row_values parts_sheet 4 1 (length (get_model_columns part_model)) = [PStr ''n/a'', PStr ''retired'']
   \<and> isl (make_record part_model (get_model_columns part_model) [PStr ''n/a'', PStr ''retired''])
   \<and> (\<forall>repo. parse_rows parts_sheet part_model (get_model_columns part_model) 1 4 repo
              = parse_rows parts_sheet part_model (get_model_columns part_model) 1 5 repo)"
proof -
  let ?cols = "get_model_columns part_model"
  have d: "1 \<le> data_start_row parts_spec" "data_start_row parts_spec \<le> 4" "4 \<le> max_row parts_sheet"
    by (simp_all add: parts_spec_rows parts_sheet_size)
  have nb: "\<not> row_is_blank (row_values parts_sheet 4 1 (length ?cols))"
    unfolding part_block_rows by (simp add: row_is_blank_def str_simps)
  have "0 < length ?cols \<and> excludes (spec (?cols ! 0)) = Some [PStr ''n/a'']
          \<and> py_eq (row_values parts_sheet 4 1 (length ?cols) ! 0) (PStr ''n/a'')"
    unfolding part_block_rows by (simp add: part_columns int_column_def)
  then have ex: "\<exists>i<length ?cols. \<exists>ex. excludes (spec (?cols ! i)) = Some ex
           \<and> (\<exists>x\<in>set ex. py_eq (row_values parts_sheet 4 1 (length ?cols) ! i) x)"
    by (intro exI[of _ 0] exI[of _ "[PStr ''n/a'']"]) simp
  note inst = excluded_row_skipped[OF find_parts d nb ex, of part_file]
  have r: "repo_of part_file part_model = Some 0" by (simp add: repo_of_def part_file_def class_ids)
  have e: "ends_block parts_sheet ?cols 1 (data_start_row parts_spec) 6"
    using parts_ends_block by (simp add: parts_spec_rows)
  have lt: "(4::int) < 6" by simp
  from inst r e lt have p: "parse_model parts_sheet parts_spec part_model part_file =
      store_rows part_file 0
        (append_records part_model ?cols
           (filter (\<lambda>row. \<not> row_excluded ?cols row)
              (block_rows parts_sheet ?cols 1 (data_start_row parts_spec) 4
               @ block_rows parts_sheet ?cols 1 (4 + 1) 6))
           (heap part_file 0))"
    by blast
  have 1: "parse_model parts_sheet parts_spec part_model part_file
     = Completed (part_file\<lparr>heap := (heap part_file)(0 := heap part_file 0 @ part_records)\<rparr>)"
    unfolding p parts_spec_rows by (simp add: part_block_rows part_rows_excluded make_record_parts
        store_rows_def part_records_def)
  have 3: "isl (make_record part_model ?cols [PStr ''n/a'', PStr ''retired''])"
    by (simp add: part_columns no_hooks make_record_def instantiate_model_def column_set_def
        column_validate_def text_column_def int_column_def text_parse_def int_parse_def
        no_validator_def str_simps int_simps)
  from inst have 4: "\<forall>repo. parse_rows parts_sheet part_model ?cols 1 4 repo
              = parse_rows parts_sheet part_model ?cols 1 (4 + 1) repo" by blast
  then have 4: "\<forall>repo. parse_rows parts_sheet part_model ?cols 1 4 repo
              = parse_rows parts_sheet part_model ?cols 1 5 repo" by simp
  show ?thesis by (intro conjI) (rule 1 part_block_rows(4) 3 4)+
qed

end
